theory Spec2Isabelle
  imports Complex_Main "HOL-Library.Sublist" "HOL-Library.Multiset" "HOL-Library.Log_Nat"
begin

section \<open>The ledger of finance\_assistant.py\<close>

text \<open>
  The class \<open>FinanceData\<close> (with its base \<open>FinancialRecord\<close>) keeps income, savings, a
  savings goal and a dictionary of expenses, and mirrors the expenses into an SQLite table
  and a text file. The model is one record that holds the object's fields together with
  the contents of the two stores, and every method is a function from that record to the
  record after the call.

  A Python \<open>dict\<close> keeps its keys in insertion order and \<open>save_data_to_file\<close> writes in
  that order, so \<open>expenses\<close> is an association list: category, then the list of
  (description, amount) pairs of that category.
\<close>

subsection \<open>Numbers\<close>

text \<open>
  The numbers of the program are Python floats, IEEE 754 binary64: the menu passes
  \<open>float(input(...))\<close> and the loader \<open>float(...)\<close>. A float is a finite value, one of the
  two infinities, or nan. A finite float is given by its value, a rational; the two zeros
  are one value (they are equal in Python). The integer defaults \<open>0\<close> of the constructor
  are the float 0, with which they agree in every comparison, sum and difference and from
  which they differ only in their printed text; other Python integers are outside the
  model.

  Addition rounds the exact sum to the nearest float, ties to the even significand, and
  overflows to an infinity; subtraction adds the negation; a comparison with nan is false.
  \<open>exponent q\<close> is the integer \<open>e\<close> with \<open>2 ^ e \<le> q < 2 ^ (e + 1)\<close>; the floats with
  that exponent are the multiples of \<open>2 ^ (e - 52)\<close>, and below \<open>2 ^ - 1022\<close> the
  multiples of \<open>2 ^ - 1074\<close>.

  The two places where the text of a float matters, \<open>float(s)\<close> and the formatting of a
  number in an f-string, are parameters of the functions that use them (\<open>to_float\<close> and
  \<open>fmt\<close>).
\<close>

datatype pyfloat = Finite rat | PInf | NInf | NaN

definition round_half_even :: "rat \<Rightarrow> int" where
  "round_half_even x =
     (let f = \<lfloor>x\<rfloor>; d = x - of_int f in
      if d < 1 / 2 then f else if 1 / 2 < d then f + 1 else if even f then f else f + 1)"

definition exponent :: "rat \<Rightarrow> int" where
  "exponent q =
     (if 1 \<le> q then int (floorlog 2 (nat \<lfloor>q\<rfloor>)) - 1
      else - int (floorlog 2 (nat (\<lceil>1 / q\<rceil> - 1))))"

definition round_double :: "rat \<Rightarrow> pyfloat" where
  "round_double q =
     (if q = 0 then Finite 0
      else
        (let u = 2 powi (max (exponent \<bar>q\<bar>) (- 1022) - 52);
             r = of_int (round_half_even (\<bar>q\<bar> / u)) * u
         in if 2 ^ 1024 \<le> r then (if q < 0 then NInf else PInf)
            else Finite (if q < 0 then - r else r)))"

instantiation pyfloat :: "{zero, plus, minus, uminus, ord}"
begin

definition zero_pyfloat :: pyfloat where
  "zero_pyfloat = Finite 0"

fun plus_pyfloat :: "pyfloat \<Rightarrow> pyfloat \<Rightarrow> pyfloat" where
  "plus_pyfloat (Finite a) (Finite b) = round_double (a + b)"
| "plus_pyfloat NaN y = NaN"
| "plus_pyfloat x NaN = NaN"
| "plus_pyfloat PInf NInf = NaN"
| "plus_pyfloat NInf PInf = NaN"
| "plus_pyfloat PInf y = PInf"
| "plus_pyfloat NInf y = NInf"
| "plus_pyfloat x PInf = PInf"
| "plus_pyfloat x NInf = NInf"

fun uminus_pyfloat :: "pyfloat \<Rightarrow> pyfloat" where
  "uminus_pyfloat (Finite a) = Finite (- a)"
| "uminus_pyfloat PInf = NInf"
| "uminus_pyfloat NInf = PInf"
| "uminus_pyfloat NaN = NaN"

definition minus_pyfloat :: "pyfloat \<Rightarrow> pyfloat \<Rightarrow> pyfloat" where
  "minus_pyfloat x y = x + (- y)"

fun less_pyfloat :: "pyfloat \<Rightarrow> pyfloat \<Rightarrow> bool" where
  "less_pyfloat (Finite a) (Finite b) = (a < b)"
| "less_pyfloat NaN y = False"
| "less_pyfloat x NaN = False"
| "less_pyfloat PInf y = False"
| "less_pyfloat x NInf = False"
| "less_pyfloat NInf y = True"
| "less_pyfloat x PInf = True"

definition less_eq_pyfloat :: "pyfloat \<Rightarrow> pyfloat \<Rightarrow> bool" where
  "less_eq_pyfloat x y = (x < y \<or> (x = y \<and> x \<noteq> NaN))"

instance ..

end

subsection \<open>The state\<close>

datatype error = ValueError | IndexError

type_synonym item = "string \<times> pyfloat"

type_synonym row = "nat \<times> string \<times> string \<times> pyfloat option"

record finance_data =
  income :: pyfloat
  savings :: pyfloat
  savings_goal :: pyfloat
  expenses :: "(string \<times> item list) list"
  original_savings :: pyfloat
  deficit :: pyfloat
  database :: "row list"
  text_file :: "string option"

text \<open>
  \<open>database\<close> is the content of the table \<open>expenses\<close> of finance\_data.db, in insertion
  order, each row with its id; the amount of a row is a float or NULL (\<open>None\<close>).
  \<open>text_file\<close> is the content of finance\_data.txt, \<open>None\<close> when the file does not exist.
\<close>

subsection \<open>FinancialRecord\<close>

text \<open>\<open>save_data\<close> is the base-class method, which does nothing; no subclass overrides it.\<close>

definition save_data :: "finance_data \<Rightarrow> finance_data" where
  "save_data w = w"

definition add_income :: "finance_data \<Rightarrow> pyfloat \<Rightarrow> finance_data" where
  "add_income w amount =
     (if amount > 0 then save_data (w\<lparr>income := income w + amount\<rparr>) else w)"

definition set_savings_goal :: "finance_data \<Rightarrow> pyfloat \<Rightarrow> finance_data" where
  "set_savings_goal w goal =
     (if goal \<ge> 0 then save_data (w\<lparr>savings_goal := goal\<rparr>) else w)"

subsection \<open>Expenses and the savings adjustment\<close>

text \<open>
  \<open>if category not in self.expenses: self.expenses[category] = []\<close> followed by
  \<open>self.expenses[category].append((description, amount))\<close>.
\<close>

fun append_expense :: "(string \<times> item list) list \<Rightarrow> string \<Rightarrow> item \<Rightarrow> (string \<times> item list) list" where
  "append_expense [] category e = [(category, [e])]"
| "append_expense ((k, items) # rest) category e =
     (if k = category then (k, items @ [e]) # rest
      else (k, items) # append_expense rest category e)"

text \<open>
  \<open>sum(amount for items in self.expenses.values() for _, amount in items)\<close>: the amounts
  are added one by one, from the left, to the start value 0, each addition rounded
  (CPython up to 3.11; from 3.12 on \<open>sum\<close> also carries a compensation term for floats,
  which changes the total only where one of the additions rounds).
\<close>

definition total_expenses :: "finance_data \<Rightarrow> pyfloat" where
  "total_expenses w = foldl (+) 0 (map snd (concat (map snd (expenses w))))"

definition adjust_savings_if_needed :: "finance_data \<Rightarrow> finance_data" where
  "adjust_savings_if_needed w =
     (let budget = income w - total_expenses w in
      if budget < 0 then
        (let w1 = w\<lparr>deficit := - budget\<rparr>;
             w2 = w1\<lparr>savings := savings w1 - deficit w1\<rparr>;
             w3 = (if savings w2 < 0 then w2\<lparr>savings := 0\<rparr> else w2)
         in save_data w3)
      else w)"

text \<open>
  An \<open>INTEGER PRIMARY KEY\<close> column without a value gets one more than the largest id in
  the table, and 1 in an empty table. A float bound to the \<open>REAL\<close> column is stored as it
  is, infinities included, except nan, which SQLite stores as NULL.
\<close>

definition sql_real :: "pyfloat \<Rightarrow> pyfloat option" where
  "sql_real x = (if x = NaN then None else Some x)"

definition next_id :: "row list \<Rightarrow> nat" where
  "next_id rows = fold max (map fst rows) 0 + 1"

definition insert_row :: "row list \<Rightarrow> string \<Rightarrow> string \<Rightarrow> pyfloat \<Rightarrow> row list" where
  "insert_row rows category description amount =
     rows @ [(next_id rows, category, description, sql_real amount)]"

definition save_expense_to_db :: "finance_data \<Rightarrow> string \<Rightarrow> string \<Rightarrow> pyfloat \<Rightarrow> finance_data" where
  "save_expense_to_db w category description amount =
     w\<lparr>database := insert_row (database w) category description amount\<rparr>"

text \<open>
  \<open>save_data_to_file\<close> overwrites the text file: three header lines, the line
  \<open>Expenses:\<close>, then one line per expense, category by category.
\<close>

definition expense_line :: "(pyfloat \<Rightarrow> string) \<Rightarrow> string \<Rightarrow> item \<Rightarrow> string" where
  "expense_line fmt category e = category @ '', '' @ fst e @ '', '' @ fmt (snd e) @ [CHR 0x0A]"

definition snapshot :: "(pyfloat \<Rightarrow> string) \<Rightarrow> finance_data \<Rightarrow> string" where
  "snapshot fmt w =
     ''Income: '' @ fmt (income w) @ [CHR 0x0A] @
     ''Savings: '' @ fmt (savings w) @ [CHR 0x0A] @
     ''SavingsGoal: '' @ fmt (savings_goal w) @ [CHR 0x0A] @
     ''Expenses:'' @ [CHR 0x0A] @
     concat (map (\<lambda>(category, items). concat (map (expense_line fmt category) items)) (expenses w))"

definition save_data_to_file :: "(pyfloat \<Rightarrow> string) \<Rightarrow> finance_data \<Rightarrow> finance_data" where
  "save_data_to_file fmt w = w\<lparr>text_file := Some (snapshot fmt w)\<rparr>"

definition add_expense ::
  "(pyfloat \<Rightarrow> string) \<Rightarrow> finance_data \<Rightarrow> string \<Rightarrow> string \<Rightarrow> pyfloat \<Rightarrow> bool \<Rightarrow> finance_data" where
  "add_expense fmt w category description amount save_to_db =
     (if amount > 0 then
        (let w1 = w\<lparr>expenses := append_expense (expenses w) category (description, amount)\<rparr>;
             w2 = (if save_to_db then save_expense_to_db w1 category description amount else w1);
             w3 = adjust_savings_if_needed w2
         in save_data_to_file fmt w3)
      else w)"

subsection \<open>Strings and lines\<close>

text \<open>
  Characters are the code points below 256. \<open>isspace\<close> lists the ones \<open>str.strip()\<close>
  removes in that range: tab, line feed, vertical tab, form feed, carriage return, the four
  separators 0x1C to 0x1F, space, 0x85 and 0xA0.
\<close>

definition isspace :: "char \<Rightarrow> bool" where
  "isspace c = (c \<in> set [CHR 0x09, CHR 0x0A, CHR 0x0B, CHR 0x0C, CHR 0x0D,
                           CHR 0x1C, CHR 0x1D, CHR 0x1E, CHR 0x1F, CHR 0x20, CHR 0x85, CHR 0xA0])"

definition strip :: "string \<Rightarrow> string" where
  "strip s = rev (dropWhile isspace (rev (dropWhile isspace s)))"

text \<open>
  \<open>s.split(sep)\<close>: cut at every occurrence of the separator, leftmost first, occurrences
  not overlapping. Python raises ValueError for an empty separator; the source passes only
  the literals \<open>":"\<close> and \<open>", "\<close>, and the model returns no field for it.
\<close>

function split_on :: "string \<Rightarrow> string \<Rightarrow> string list" where
  "split_on sep s =
     (if sep = [] then []
      else if s = [] then [[]]
      else if prefix sep s then [] # split_on sep (drop (length sep) s)
      else (case split_on sep (tl s) of
              [] \<Rightarrow> []
            | p # ps \<Rightarrow> (hd s # p) # ps))"
  by pat_completeness auto
termination
  by (relation "measure (\<lambda>(sep, s). length s)") auto

text \<open>
  \<open>file.readlines()\<close> of a file opened in text mode: the lines with their terminators;
  \<open>\r\n\<close> and a lone \<open>\r\<close> end a line as \<open>\n\<close> does and are read as \<open>\n\<close>.
\<close>

fun readlines :: "string \<Rightarrow> string list" where
  "readlines [] = []"
| "readlines (c # cs) =
     (if c = CHR 0x0A then [CHR 0x0A] # readlines cs
      else if c = CHR 0x0D then
        (case cs of
           [] \<Rightarrow> [[CHR 0x0A]]
         | d # ds \<Rightarrow> if d = CHR 0x0A then [CHR 0x0A] # readlines ds
                     else [CHR 0x0A] # readlines (d # ds))
      else (case readlines cs of
              [] \<Rightarrow> [[c]]
            | l # ls \<Rightarrow> (c # l) # ls))"

subsection \<open>Loading the text file\<close>

text \<open>\<open>float(line.split(":")[1].strip())\<close>, with \<open>to_float\<close> for \<open>float\<close>.\<close>

definition header_value :: "(string \<Rightarrow> pyfloat option) \<Rightarrow> string \<Rightarrow> error + pyfloat" where
  "header_value to_float line =
     (case split_on '':'' line of
        _ # x # _ \<Rightarrow> (case to_float (strip x) of None \<Rightarrow> Inl ValueError | Some v \<Rightarrow> Inr v)
      | _ \<Rightarrow> Inl IndexError)"

text \<open>
  The loop over the lines of the file. \<open>sec\<close> is \<open>in_expenses_section\<close>. An exception
  leaves the loop and the method: the result is \<open>Inl\<close>.
\<close>

fun read_lines ::
  "(string \<Rightarrow> pyfloat option) \<Rightarrow> bool \<Rightarrow> finance_data \<Rightarrow> string list \<Rightarrow> error + finance_data" where
  "read_lines to_float sec w [] = Inr w"
| "read_lines to_float sec w (line # rest) =
     (if prefix ''Income:'' line then
        (case header_value to_float line of
           Inl e \<Rightarrow> Inl e
         | Inr v \<Rightarrow> read_lines to_float sec (w\<lparr>income := v\<rparr>) rest)
      else if prefix ''Savings:'' line then
        (case header_value to_float line of
           Inl e \<Rightarrow> Inl e
         | Inr v \<Rightarrow> read_lines to_float sec (w\<lparr>savings := v\<rparr>) rest)
      else if prefix ''SavingsGoal:'' line then
        (case header_value to_float line of
           Inl e \<Rightarrow> Inl e
         | Inr v \<Rightarrow> read_lines to_float sec (w\<lparr>savings_goal := v\<rparr>) rest)
      else if prefix ''Expenses:'' line then read_lines to_float True w rest
      else if sec \<and> strip line \<noteq> [] then
        (case split_on '', '' (strip line) of
           [category, description, amount] \<Rightarrow>
             (case to_float amount of
                None \<Rightarrow> Inl ValueError
              | Some a \<Rightarrow>
                  read_lines to_float sec
                    (w\<lparr>database := insert_row (database w) category description a,
                       expenses := append_expense (expenses w) category (description, a)\<rparr>)
                    rest)
         | _ \<Rightarrow> Inl ValueError)
      else read_lines to_float sec w rest)"

text \<open>
  \<open>read_data_from_file\<close>: the table is emptied, then the file is read. A missing file is
  caught inside the method (\<open>FileNotFoundError\<close>), which then returns normally with the
  table empty. A ValueError is not caught. The connection's \<open>with\<close> block commits when the
  method returns and rolls the table back when the exception passes through it; the model's
  \<open>Inl\<close> carries no state.
\<close>

definition read_data_from_file ::
  "(string \<Rightarrow> pyfloat option) \<Rightarrow> finance_data \<Rightarrow> error + finance_data" where
  "read_data_from_file to_float w =
     (let w0 = w\<lparr>database := []\<rparr> in
      case text_file w of
        None \<Rightarrow> Inr w0
      | Some content \<Rightarrow>
          (case read_lines to_float False w0 (readlines content) of
             Inl e \<Rightarrow> Inl e
           | Inr w1 \<Rightarrow> Inr (w1\<lparr>original_savings := savings w1\<rparr>)))"

text \<open>
  The constructor: zero defaults, an empty dictionary, then the load. \<open>rows\<close> and
  \<open>file\<close> are what the two stores hold when the process starts.
\<close>

definition fresh :: "row list \<Rightarrow> string option \<Rightarrow> finance_data" where
  "fresh rows file =
     \<lparr>income = 0, savings = 0, savings_goal = 0, expenses = [], original_savings = 0,
      deficit = 0, database = rows, text_file = file\<rparr>"

definition init :: "(string \<Rightarrow> pyfloat option) \<Rightarrow> row list \<Rightarrow> string option \<Rightarrow> error + finance_data" where
  "init to_float rows file = read_data_from_file to_float (fresh rows file)"

subsection \<open>Notions used to state the properties\<close>

text \<open>
  The expenses of a dictionary as one list of (category, description, amount), in the order
  in which the nested loop of \<open>save_data_to_file\<close> visits them, and the sequence stored
  under one category (empty when the category is absent).
\<close>

definition entries :: "(string \<times> item list) list \<Rightarrow> (string \<times> string \<times> pyfloat) list" where
  "entries es = concat (map (\<lambda>(category, items). map (\<lambda>e. (category, e)) items) es)"

definition items_of :: "(string \<times> item list) list \<Rightarrow> string \<Rightarrow> item list" where
  "items_of es category = (case map_of es category of None \<Rightarrow> [] | Some items \<Rightarrow> items)"

text \<open>The rows and the dictionary after a list of expenses has been stored one by one.\<close>

definition insert_rows :: "row list \<Rightarrow> (string \<times> string \<times> pyfloat) list \<Rightarrow> row list" where
  "insert_rows = foldl (\<lambda>rows (category, description, amount). insert_row rows category description amount)"

definition append_expenses ::
  "(string \<times> item list) list \<Rightarrow> (string \<times> string \<times> pyfloat) list \<Rightarrow> (string \<times> item list) list" where
  "append_expenses = foldl (\<lambda>es (category, e). append_expense es category e)"

text \<open>
  An expense as the table holds it, and the clamp of \<open>adjust_savings_if_needed\<close>:
  a value below 0 becomes 0, any other value (nan included) is kept.
\<close>

definition stored :: "string \<times> string \<times> pyfloat \<Rightarrow> string \<times> string \<times> pyfloat option" where
  "stored = (\<lambda>(category, description, amount). (category, description, sql_real amount))"

definition clamp :: "pyfloat \<Rightarrow> pyfloat" where
  "clamp x = (if x < 0 then 0 else x)"

text \<open>
  The expense lines of a file in the words of the specification: every non-blank line after
  the first line that begins with \<open>Expenses:\<close> (\<open>section_lines\<close>). The loop looks at the
  prefix of a line before anything else, so among these it parses as expenses only the
  ones that carry none of the four record prefixes (\<open>expense_lines\<close>). An expense line is
  well formed when it has exactly three fields separated by \<open>", "\<close> and \<open>float\<close> accepts
  the third.
\<close>

definition has_record_prefix :: "string \<Rightarrow> bool" where
  "has_record_prefix line =
     (prefix ''Income:'' line \<or> prefix ''Savings:'' line \<or> prefix ''SavingsGoal:'' line \<or>
      prefix ''Expenses:'' line)"

fun section_lines :: "bool \<Rightarrow> string list \<Rightarrow> string list" where
  "section_lines sec [] = []"
| "section_lines sec (line # rest) =
     (if sec then
        (if strip line \<noteq> [] then line # section_lines True rest else section_lines True rest)
      else if prefix ''Expenses:'' line then section_lines True rest
      else section_lines False rest)"

fun expense_lines :: "bool \<Rightarrow> string list \<Rightarrow> string list" where
  "expense_lines sec [] = []"
| "expense_lines sec (line # rest) =
     (if prefix ''Income:'' line \<or> prefix ''Savings:'' line \<or> prefix ''SavingsGoal:'' line
        then expense_lines sec rest
      else if prefix ''Expenses:'' line then expense_lines True rest
      else if sec \<and> strip line \<noteq> [] then line # expense_lines sec rest
      else expense_lines sec rest)"

definition parse_expense :: "(string \<Rightarrow> pyfloat option) \<Rightarrow> string \<Rightarrow> (string \<times> string \<times> pyfloat) option" where
  "parse_expense to_float line =
     (case split_on '', '' (strip line) of
        [category, description, amount] \<Rightarrow>
          (case to_float amount of None \<Rightarrow> None | Some a \<Rightarrow> Some (category, description, a))
      | _ \<Rightarrow> None)"

text \<open>
  What a ledger must satisfy for its snapshot to be read back as written. A text is plain
  when it has no line break and no \<open>", "\<close>; a category must also not begin with white
  space or with a record prefix; a number must be printed without white space or colon, in
  a form \<open>float\<close> reads back as the same number. Every category holds at least one item
  (the code never stores an empty one), and the keys are distinct, as in any dictionary.
\<close>

definition plain_text :: "string \<Rightarrow> bool" where
  "plain_text s = (CHR 0x0A \<notin> set s \<and> CHR 0x0D \<notin> set s \<and> \<not> sublist '', '' s)"

definition category_ok :: "string \<Rightarrow> bool" where
  "category_ok c =
     (plain_text c \<and> (c = [] \<or> \<not> isspace (hd c)) \<and>
      \<not> prefix ''Income:'' c \<and> \<not> prefix ''Savings:'' c \<and>
      \<not> prefix ''SavingsGoal:'' c \<and> \<not> prefix ''Expenses:'' c)"

definition number_ok :: "(string \<Rightarrow> pyfloat option) \<Rightarrow> (pyfloat \<Rightarrow> string) \<Rightarrow> pyfloat \<Rightarrow> bool" where
  "number_ok to_float fmt x =
     (fmt x \<noteq> [] \<and> (\<forall>c \<in> set (fmt x). \<not> isspace c \<and> c \<noteq> CHR '':'') \<and>
      to_float (fmt x) = Some x)"

definition snapshot_safe ::
  "(string \<Rightarrow> pyfloat option) \<Rightarrow> (pyfloat \<Rightarrow> string) \<Rightarrow> finance_data \<Rightarrow> bool" where
  "snapshot_safe to_float fmt w =
     (number_ok to_float fmt (income w) \<and> number_ok to_float fmt (savings w) \<and>
      number_ok to_float fmt (savings_goal w) \<and>
      distinct (map fst (expenses w)) \<and>
      (\<forall>(category, items) \<in> set (expenses w).
          category_ok category \<and> items \<noteq> [] \<and>
          (\<forall>(description, amount) \<in> set items.
              plain_text description \<and> number_ok to_float fmt amount)))"

subsection \<open>Sample instances of the two parameters\<close>

text \<open>
  For the concrete examples below \<open>float\<close> and the f-string formatting are instantiated by
  finite tables. \<open>sample_float\<close> gives the float that \<open>float\<close> returns for each text listed;
  \<open>float\<close> raises ValueError on the texts of the examples that it maps to \<open>None\<close>.
  \<open>sample_fmt\<close> gives the text Python prints for each float listed; the examples print no
  other float.
\<close>

definition sample_float :: "string \<Rightarrow> pyfloat option" where
  "sample_float s =
     (if s = ''0.0'' then Some (Finite 0)
      else if s = ''7'' \<or> s = ''7.0'' then Some (Finite 7)
      else if s = ''-5'' then Some (Finite (- 5))
      else if s = ''500.0'' then Some (Finite 500)
      else if s = ''1000'' \<or> s = ''1000.0'' then Some (Finite 1000)
      else if s = ''2.25'' then Some (Finite (9 / 4))
      else if s = ''3.5'' then Some (Finite (7 / 2))
      else if s = ''nan'' then Some NaN
      else None)"

definition sample_fmt :: "pyfloat \<Rightarrow> string" where
  "sample_fmt x =
     (if x = Finite 0 then ''0.0''
      else if x = Finite 7 then ''7.0''
      else if x = Finite 500 then ''500.0''
      else if x = Finite 1000 then ''1000.0''
      else if x = Finite (9 / 4) then ''2.25''
      else if x = Finite (7 / 2) then ''3.5''
      else ''nan'')"

text \<open>Two ledgers for the examples: one that is safe to write and read back, one that is not.\<close>

definition example_ledger :: finance_data where
  "example_ledger =
     \<lparr>income = Finite 500, savings = Finite 1000, savings_goal = Finite 0,
      expenses = [(''Food'', [(''Bread'', Finite (9 / 4)), (''Milk'', Finite (7 / 2))]),
                  (''Rent'', [(''Monthly Rent'', Finite 1000)])],
      original_savings = Finite 1000, deficit = Finite 0, database = [], text_file = None\<rparr>"

definition garden_ledger :: finance_data where
  "garden_ledger =
     \<lparr>income = Finite 500, savings = Finite 1000, savings_goal = Finite 0,
      expenses = [(''Home, Garden'', [(''Hose'', Finite 7)])],
      original_savings = Finite 1000, deficit = Finite 0, database = [], text_file = None\<rparr>"

section \<open>Properties\<close>

subsection \<open>Floats\<close>

lemma floor_rat_numeral:
  "\<lfloor>numeral a / numeral b :: rat\<rfloor> = numeral a div numeral b"
  using floor_divide_of_int_eq [of "numeral a" "numeral b", where ?'a = rat] by simp

lemma ceiling_rat_numeral:
  "\<lceil>numeral a / numeral b :: rat\<rceil> = - ((- numeral a) div numeral b)"
  using ceiling_divide_eq_div [of "numeral a" "numeral b", where ?'a = rat] by simp

lemmas float_eval = round_double_def round_half_even_def exponent_def compute_floorlog
  zero_pyfloat_def minus_pyfloat_def less_eq_pyfloat_def power_int_def Let_def
  floor_rat_numeral ceiling_rat_numeral power_one_over inverse_eq_divide

text \<open>
  Some sums and differences as Python computes them: 1e16 + 1, 1e16 + 3, 0.1 + 0.2,
  2.25 + 3.5, 1e16 - 1, 0.3 - 0.1 (a finite float is written as the exact fraction it
  is), and the behaviour of infinity and nan.
\<close>

lemma float_examples:
  "Finite 10000000000000000 + Finite 1 = Finite 10000000000000000"
  "Finite 10000000000000000 + Finite 3 = Finite 10000000000000004"
  "Finite (3602879701896397 / 36028797018963968) + Finite (3602879701896397 / 18014398509481984) = Finite (1351079888211149 / 4503599627370496)"
  "Finite (9 / 4) + Finite (7 / 2) = Finite (23 / 4)"
  "Finite 10000000000000000 - Finite 1 = Finite 10000000000000000"
  "Finite (5404319552844595 / 18014398509481984) - Finite (3602879701896397 / 36028797018963968) = Finite (7205759403792793 / 36028797018963968)"
  "PInf - PInf = NaN"
  "PInf + Finite 1 = PInf"
  "\<not> NaN < (0::pyfloat)"
  "\<not> (0::pyfloat) \<le> NaN"
  by (simp_all add: float_eval)

lemma zero_not_less_zero [simp]: "\<not> (0::pyfloat) < 0"
  by (simp add: zero_pyfloat_def)

lemma less_not_ge: "(x::pyfloat) < y \<Longrightarrow> \<not> y \<le> x"
  by (cases x; cases y) (auto simp: less_eq_pyfloat_def)

lemma le_not_greater: "(x::pyfloat) \<le> y \<Longrightarrow> \<not> y < x"
  by (cases x; cases y) (auto simp: less_eq_pyfloat_def)

lemma clamp_not_below_zero [simp]: "\<not> clamp x < 0"
  by (simp add: clamp_def)

lemma clamp_keeps: "\<not> x < 0 \<Longrightarrow> clamp x = x"
  by (simp add: clamp_def)


subsection \<open>Strings, lines and fields\<close>

declare split_on.simps [simp del]

lemma strip_sandwich:
  assumes "\<forall>c \<in> set a. isspace c" and "\<forall>c \<in> set b. isspace c"
      and "s \<noteq> []" and "\<not> isspace (hd s)" and "\<not> isspace (last s)"
  shows "strip (a @ s @ b) = s"
proof -
  have "dropWhile isspace (a @ s @ b) = dropWhile isspace (s @ b)"
    using assms(1) by (intro dropWhile_append2) simp
  also have "\<dots> = s @ b"
    using assms(3,4) by (cases s) simp_all
  finally have 1: "dropWhile isspace (a @ s @ b) = s @ b" .
  have "dropWhile isspace (rev b @ rev s) = dropWhile isspace (rev s)"
    using assms(2) by (intro dropWhile_append2) simp
  also have "\<dots> = rev s"
    using assms(3,5) by (cases s rule: rev_cases) simp_all
  finally have 2: "dropWhile isspace (rev (s @ b)) = rev s" by simp
  show ?thesis by (simp only: strip_def 1 2 rev_rev_ident)
qed

lemma split_on_Nil: "sep \<noteq> [] \<Longrightarrow> split_on sep [] = [[]]"
  by (simp add: split_on.simps)

lemma split_on_hit: "sep \<noteq> [] \<Longrightarrow> split_on sep (sep @ r) = [] # split_on sep r"
  by (subst split_on.simps) simp

lemma split_on_miss:
  "sep \<noteq> [] \<Longrightarrow> \<not> prefix sep (x # xs) \<Longrightarrow>
   split_on sep (x # xs) = (case split_on sep xs of [] \<Rightarrow> [] | p # ps \<Rightarrow> (x # p) # ps)"
  by (subst split_on.simps) (simp split: list.splits)

lemma split_comma_app:
  "\<not> sublist '', '' a \<Longrightarrow> split_on '', '' (a @ '', '' @ r) = a # split_on '', '' r"
proof (induction a)
  case Nil
  show ?case using split_on_hit [of "'', ''" r] by simp
next
  case (Cons x xs)
  have ns: "\<not> sublist '', '' xs" and np: "\<not> prefix '', '' (x # xs)"
    using Cons.prems by (auto simp: sublist_Cons_right)
  have "\<not> prefix '', '' (x # xs @ '', '' @ r)"
    using np by (cases xs) auto
  then show ?case using Cons.IH [OF ns] by (simp add: split_on_miss)
qed

lemma split_comma_none:
  "\<not> sublist '', '' s \<Longrightarrow> split_on '', '' s = [s]"
proof (induction s)
  case Nil
  show ?case by (simp add: split_on_Nil)
next
  case (Cons x xs)
  have ns: "\<not> sublist '', '' xs" and np: "\<not> prefix '', '' (x # xs)"
    using Cons.prems by (auto simp: sublist_Cons_right)
  show ?case using Cons.IH [OF ns] np by (simp add: split_on_miss)
qed

lemma split_colon_app:
  "CHR '':'' \<notin> set a \<Longrightarrow> split_on '':'' (a @ '':'' @ r) = a # split_on '':'' r"
proof (induction a)
  case Nil
  show ?case using split_on_hit [of "'':''" r] by simp
next
  case (Cons x xs)
  then show ?case by (simp add: split_on_miss)
qed

lemma split_colon_none:
  "CHR '':'' \<notin> set s \<Longrightarrow> split_on '':'' s = [s]"
proof (induction s)
  case Nil
  show ?case by (simp add: split_on_Nil)
next
  case (Cons x xs)
  then show ?case by (simp add: split_on_miss)
qed

lemma readlines_line:
  "CHR 0x0A \<notin> set l \<Longrightarrow> CHR 0x0D \<notin> set l \<Longrightarrow>
   readlines (l @ CHR 0x0A # rest) = (l @ [CHR 0x0A]) # readlines rest"
  by (induction l) auto


lemma not_isspace_comma [simp]: "\<not> isspace CHR '',''"
  by (simp add: isspace_def)

lemma isspace_nl [simp]: "isspace CHR 0x0A" "isspace CHR 0x0D" "isspace CHR '' ''"
  by (simp_all add: isspace_def)

lemma number_okD:
  assumes "number_ok tf fmt x"
  shows "fmt x \<noteq> []" and "\<not> isspace (hd (fmt x))" and "\<not> isspace (last (fmt x))"
    and "CHR '':'' \<notin> set (fmt x)" and "CHR 0x0A \<notin> set (fmt x)" and "CHR 0x0D \<notin> set (fmt x)"
    and "CHR '' '' \<notin> set (fmt x)" and "tf (fmt x) = Some x"
proof -
  have ne: "fmt x \<noteq> []" and all: "\<And>c. c \<in> set (fmt x) \<Longrightarrow> \<not> isspace c \<and> c \<noteq> CHR '':''"
    and tf: "tf (fmt x) = Some x"
    using assms unfolding number_ok_def by blast+
  show "fmt x \<noteq> []" by (rule ne)
  show "\<not> isspace (hd (fmt x))" using all [OF hd_in_set [OF ne]] by blast
  show "\<not> isspace (last (fmt x))" using all [OF last_in_set [OF ne]] by blast
  show "CHR '':'' \<notin> set (fmt x)" using all by blast
  show "CHR 0x0A \<notin> set (fmt x)" using all isspace_nl(1) by blast
  show "CHR 0x0D \<notin> set (fmt x)" using all isspace_nl(2) by blast
  show "CHR '' '' \<notin> set (fmt x)" using all isspace_nl(3) by blast
  show "tf (fmt x) = Some x" by (rule tf)
qed

lemma header_value_ok:
  assumes "number_ok tf fmt x" and "CHR '':'' \<notin> set key"
  shows "header_value tf (key @ '': '' @ fmt x @ [CHR 0x0A]) = Inr x"
proof -
  have "split_on '':'' (key @ '':'' @ ('' '' @ fmt x @ [CHR 0x0A])) =
          key # split_on '':'' ('' '' @ fmt x @ [CHR 0x0A])"
    using assms(2) by (rule split_colon_app)
  moreover have "split_on '':'' ('' '' @ fmt x @ [CHR 0x0A]) = ['' '' @ fmt x @ [CHR 0x0A]]"
    using number_okD(4) [OF assms(1)] by (intro split_colon_none) simp
  ultimately have sp: "split_on '':'' (key @ '': '' @ fmt x @ [CHR 0x0A]) =
      [key, '' '' @ fmt x @ [CHR 0x0A]]" by simp
  have st: "strip ('' '' @ fmt x @ [CHR 0x0A]) = fmt x"
    using number_okD(1,2,3) [OF assms(1)] by (intro strip_sandwich) simp_all
  show ?thesis
    unfolding header_value_def sp using st number_okD(8) [OF assms(1)] by simp
qed

lemma prefix_before_comma:
  assumes "\<not> prefix p c" and "CHR '','' \<notin> set p"
  shows "\<not> prefix p (c @ CHR '','' # r)"
proof
  assume "prefix p (c @ CHR '','' # r)"
  then obtain us where us: "p = c @ us" "prefix us (CHR '','' # r)"
    using assms(1) by (auto simp: prefix_append)
  show False
  proof (cases us)
    case Nil
    with us(1) assms(1) show False by simp
  next
    case (Cons u vs)
    with us(2) have "u = CHR '',''" by simp
    with Cons us(1) assms(2) show False by simp
  qed
qed

lemma expense_line_not_record:
  assumes "category_ok c"
  shows "\<not> prefix ''Income:'' (expense_line fmt c e)"
    and "\<not> prefix ''Savings:'' (expense_line fmt c e)"
    and "\<not> prefix ''SavingsGoal:'' (expense_line fmt c e)"
    and "\<not> prefix ''Expenses:'' (expense_line fmt c e)"
  using assms unfolding expense_line_def category_ok_def
  by (simp_all add: prefix_before_comma)

lemma strip_expense_line:
  assumes "category_ok c" and "number_ok tf fmt a"
  shows "strip (expense_line fmt c (d, a)) = c @ '', '' @ d @ '', '' @ fmt a"
proof -
  let ?s = "c @ '', '' @ d @ '', '' @ fmt a"
  have ne: "?s \<noteq> []" by simp
  have h: "\<not> isspace (hd ?s)"
    using assms(1) by (cases c) (simp_all add: category_ok_def)
  have l: "\<not> isspace (last ?s)"
    using number_okD(1,3) [OF assms(2)] by simp
  have "strip ([] @ ?s @ [CHR 0x0A]) = ?s"
    using ne h l by (intro strip_sandwich) simp_all
  then show ?thesis by (simp add: expense_line_def)
qed

lemma no_sep_in_number:
  assumes "number_ok tf fmt a"
  shows "\<not> sublist '', '' (fmt a)"
proof
  assume "sublist '', '' (fmt a)"
  then have "set '', '' \<subseteq> set (fmt a)" by (rule set_mono_sublist)
  then have "CHR '' '' \<in> set (fmt a)" by simp
  with number_okD(7) [OF assms] show False by simp
qed

lemma parse_expense_line:
  assumes "category_ok c" and "plain_text d" and "number_ok tf fmt a"
  shows "parse_expense tf (expense_line fmt c (d, a)) = Some (c, d, a)"
proof -
  have c: "\<not> sublist '', '' c" using assms(1) by (simp add: category_ok_def plain_text_def)
  have d: "\<not> sublist '', '' d" using assms(2) by (simp add: plain_text_def)
  have "split_on '', '' (c @ '', '' @ d @ '', '' @ fmt a) = [c, d, fmt a]"
    using split_comma_app [OF c, of "d @ '', '' @ fmt a"] split_comma_app [OF d, of "fmt a"]
      split_comma_none [OF no_sep_in_number [OF assms(3)]] by simp
  then show ?thesis
    using number_okD(8) [OF assms(3)]
    by (simp add: parse_expense_def strip_expense_line [OF assms(1,3)])
qed

lemma read_lines_expense_step:
  assumes "\<not> prefix ''Income:'' line" "\<not> prefix ''Savings:'' line"
          "\<not> prefix ''SavingsGoal:'' line" "\<not> prefix ''Expenses:'' line"
          "strip line \<noteq> []"
  shows "read_lines tf True w (line # rest) =
     (case parse_expense tf line of
        None \<Rightarrow> Inl ValueError
      | Some (c, d, a) \<Rightarrow>
          read_lines tf True
            (w\<lparr>database := insert_row (database w) c d a,
               expenses := append_expense (expenses w) c (d, a)\<rparr>) rest)"
  using assms by (simp add: parse_expense_def split: list.splits option.splits)

lemma read_lines_skip_step:
  assumes "\<not> prefix ''Income:'' line" "\<not> prefix ''Savings:'' line"
          "\<not> prefix ''SavingsGoal:'' line" "\<not> prefix ''Expenses:'' line"
          "\<not> sec \<or> strip line = []"
  shows "read_lines tf sec w (line # rest) = read_lines tf sec w rest"
  using assms by auto

subsection \<open>The loop over the lines\<close>

lemma header_step:
  "prefix ''Income:'' line \<Longrightarrow>
     read_lines tf sec w (line # rest) =
       (case header_value tf line of Inl e \<Rightarrow> Inl e
        | Inr v \<Rightarrow> read_lines tf sec (w\<lparr>income := v\<rparr>) rest)"
  "\<not> prefix ''Income:'' line \<Longrightarrow> prefix ''Savings:'' line \<Longrightarrow>
     read_lines tf sec w (line # rest) =
       (case header_value tf line of Inl e \<Rightarrow> Inl e
        | Inr v \<Rightarrow> read_lines tf sec (w\<lparr>savings := v\<rparr>) rest)"
  "\<not> prefix ''Income:'' line \<Longrightarrow> \<not> prefix ''Savings:'' line \<Longrightarrow> prefix ''SavingsGoal:'' line \<Longrightarrow>
     read_lines tf sec w (line # rest) =
       (case header_value tf line of Inl e \<Rightarrow> Inl e
        | Inr v \<Rightarrow> read_lines tf sec (w\<lparr>savings_goal := v\<rparr>) rest)"
  "\<not> prefix ''Income:'' line \<Longrightarrow> \<not> prefix ''Savings:'' line \<Longrightarrow> \<not> prefix ''SavingsGoal:'' line \<Longrightarrow>
   prefix ''Expenses:'' line \<Longrightarrow>
     read_lines tf sec w (line # rest) = read_lines tf True w rest"
  by simp_all

lemma insert_rows_simps [simp]:
  "insert_rows rows [] = rows"
  "insert_rows rows ((c, d, a) # es) = insert_rows (insert_row rows c d a) es"
  by (simp_all add: insert_rows_def)

lemma append_expenses_simps [simp]:
  "append_expenses E [] = E"
  "append_expenses E ((c, e) # es) = append_expenses (append_expense E c e) es"
  by (simp_all add: append_expenses_def)

lemma read_lines_result:
  "read_lines tf sec w ls = Inr w' \<Longrightarrow>
     list_all (\<lambda>l. parse_expense tf l \<noteq> None) (expense_lines sec ls) \<and>
     database w' = insert_rows (database w) (map (the \<circ> parse_expense tf) (expense_lines sec ls)) \<and>
     expenses w' = append_expenses (expenses w) (map (the \<circ> parse_expense tf) (expense_lines sec ls))"
proof (induction ls arbitrary: sec w)
  case Nil
  then show ?case by simp
next
  case (Cons line rest)
  consider (inc) "prefix ''Income:'' line"
    | (sav) "\<not> prefix ''Income:'' line" "prefix ''Savings:'' line"
    | (goal) "\<not> prefix ''Income:'' line" "\<not> prefix ''Savings:'' line" "prefix ''SavingsGoal:'' line"
    | (exp) "\<not> prefix ''Income:'' line" "\<not> prefix ''Savings:'' line" "\<not> prefix ''SavingsGoal:'' line"
            "prefix ''Expenses:'' line"
    | (item) "\<not> prefix ''Income:'' line" "\<not> prefix ''Savings:'' line" "\<not> prefix ''SavingsGoal:'' line"
            "\<not> prefix ''Expenses:'' line" "sec" "strip line \<noteq> []"
    | (skip) "\<not> prefix ''Income:'' line" "\<not> prefix ''Savings:'' line" "\<not> prefix ''SavingsGoal:'' line"
            "\<not> prefix ''Expenses:'' line" "\<not> sec \<or> strip line = []"
    by blast
  then show ?case
  proof cases
    case inc
    from Cons.prems obtain v where "read_lines tf sec (w\<lparr>income := v\<rparr>) rest = Inr w'"
      by (simp only: header_step(1) [OF inc] split: sum.splits) simp
    from Cons.IH [OF this] inc show ?thesis by simp
  next
    case sav
    from Cons.prems obtain v where "read_lines tf sec (w\<lparr>savings := v\<rparr>) rest = Inr w'"
      by (simp only: header_step(2) [OF sav] split: sum.splits) simp
    from Cons.IH [OF this] sav show ?thesis by simp
  next
    case goal
    from Cons.prems obtain v where "read_lines tf sec (w\<lparr>savings_goal := v\<rparr>) rest = Inr w'"
      by (simp only: header_step(3) [OF goal] split: sum.splits) simp
    from Cons.IH [OF this] goal show ?thesis by simp
  next
    case exp
    from Cons.prems have "read_lines tf True w rest = Inr w'"
      by (simp only: header_step(4) [OF exp])
    from Cons.IH [OF this] exp show ?thesis by simp
  next
    case item
    from Cons.prems item(5) have
      "(case parse_expense tf line of None \<Rightarrow> Inl ValueError
        | Some (c, d, a) \<Rightarrow> read_lines tf True
            (w\<lparr>database := insert_row (database w) c d a,
               expenses := append_expense (expenses w) c (d, a)\<rparr>) rest) = Inr w'"
      by (simp only: read_lines_expense_step [OF item(1,2,3,4,6)] simp_thms)
    then obtain c d a where p: "parse_expense tf line = Some (c, d, a)"
      and r: "read_lines tf True
            (w\<lparr>database := insert_row (database w) c d a,
               expenses := append_expense (expenses w) c (d, a)\<rparr>) rest = Inr w'"
      by (auto split: option.splits)
    from Cons.IH [OF r] item p show ?thesis by simp
  next
    case skip
    from Cons.prems have "read_lines tf sec w rest = Inr w'"
      by (simp only: read_lines_skip_step [OF skip])
    from Cons.IH [OF this] skip show ?thesis by auto
  qed
qed


lemma split_on_not_Nil: "sep \<noteq> [] \<Longrightarrow> split_on sep s \<noteq> []"
proof (induction sep s rule: split_on.induct)
  case (1 sep s)
  show ?case
  proof (cases "s = []")
    case True
    with "1.prems" show ?thesis by (simp add: split_on_Nil)
  next
    case False
    show ?thesis
    proof (cases "prefix sep s")
      case True
      with "1.prems" False show ?thesis by (subst split_on.simps) simp
    next
      case np: False
      from "1.IH"(2) [OF "1.prems" False np "1.prems"]
      obtain p ps where "split_on sep (tl s) = p # ps" by (cases "split_on sep (tl s)") auto
      with "1.prems" False np show ?thesis by (subst split_on.simps) simp
    qed
  qed
qed

lemma split_colon_two:
  "CHR '':'' \<in> set s \<Longrightarrow> \<exists>a b r. split_on '':'' s = a # b # r"
proof (induction s)
  case Nil
  then show ?case by simp
next
  case (Cons x xs)
  show ?case
  proof (cases "x = CHR '':''")
    case True
    obtain b r where "split_on '':'' xs = b # r"
      using split_on_not_Nil [of "'':''" xs] by (cases "split_on '':'' xs") auto
    with True show ?thesis using split_on_hit [of "'':''" xs] by simp
  next
    case False
    with Cons.prems have "CHR '':'' \<in> set xs" by simp
    from Cons.IH [OF this] obtain a b r where "split_on '':'' xs = a # b # r" by blast
    with False show ?thesis by (simp add: split_on_miss)
  qed
qed

lemma header_value_error:
  assumes "CHR '':'' \<in> set line" and "header_value tf line = Inl e"
  shows "e = ValueError"
proof -
  from split_colon_two [OF assms(1)] obtain a b r where "split_on '':'' line = a # b # r" by blast
  with assms(2) show ?thesis by (auto simp: header_value_def split: option.splits)
qed

lemma record_prefix_colon:
  "prefix ''Income:'' line \<Longrightarrow> CHR '':'' \<in> set line"
  "prefix ''Savings:'' line \<Longrightarrow> CHR '':'' \<in> set line"
  "prefix ''SavingsGoal:'' line \<Longrightarrow> CHR '':'' \<in> set line"
  using set_mono_prefix by fastforce+

lemma read_lines_error:
  "read_lines tf sec w ls = Inl e \<Longrightarrow> e = ValueError"
proof (induction ls arbitrary: sec w)
  case Nil
  then show ?case by simp
next
  case (Cons line rest)
  consider (inc) "prefix ''Income:'' line"
    | (sav) "\<not> prefix ''Income:'' line" "prefix ''Savings:'' line"
    | (goal) "\<not> prefix ''Income:'' line" "\<not> prefix ''Savings:'' line" "prefix ''SavingsGoal:'' line"
    | (exp) "\<not> prefix ''Income:'' line" "\<not> prefix ''Savings:'' line" "\<not> prefix ''SavingsGoal:'' line"
            "prefix ''Expenses:'' line"
    | (item) "\<not> prefix ''Income:'' line" "\<not> prefix ''Savings:'' line" "\<not> prefix ''SavingsGoal:'' line"
            "\<not> prefix ''Expenses:'' line" "sec" "strip line \<noteq> []"
    | (skip) "\<not> prefix ''Income:'' line" "\<not> prefix ''Savings:'' line" "\<not> prefix ''SavingsGoal:'' line"
            "\<not> prefix ''Expenses:'' line" "\<not> sec \<or> strip line = []"
    by blast
  then show ?case
  proof cases
    case inc
    from Cons.prems have
      "header_value tf line = Inl e \<or> (\<exists>v. read_lines tf sec (w\<lparr>income := v\<rparr>) rest = Inl e)"
      by (simp only: header_step(1) [OF inc] split: sum.splits) auto
    then show ?thesis
      using header_value_error [OF record_prefix_colon(1) [OF inc]] Cons.IH by blast
  next
    case sav
    from Cons.prems have
      "header_value tf line = Inl e \<or> (\<exists>v. read_lines tf sec (w\<lparr>savings := v\<rparr>) rest = Inl e)"
      by (simp only: header_step(2) [OF sav] split: sum.splits) auto
    then show ?thesis
      using header_value_error [OF record_prefix_colon(2) [OF sav(2)]] Cons.IH by blast
  next
    case goal
    from Cons.prems have
      "header_value tf line = Inl e \<or> (\<exists>v. read_lines tf sec (w\<lparr>savings_goal := v\<rparr>) rest = Inl e)"
      by (simp only: header_step(3) [OF goal] split: sum.splits) auto
    then show ?thesis
      using header_value_error [OF record_prefix_colon(3) [OF goal(3)]] Cons.IH by blast
  next
    case exp
    from Cons.prems have "read_lines tf True w rest = Inl e"
      by (simp only: header_step(4) [OF exp])
    then show ?thesis by (rule Cons.IH)
  next
    case item
    from Cons.prems item(5) have
      "(case parse_expense tf line of None \<Rightarrow> Inl ValueError
        | Some (c, d, a) \<Rightarrow> read_lines tf True
            (w\<lparr>database := insert_row (database w) c d a,
               expenses := append_expense (expenses w) c (d, a)\<rparr>) rest) = Inl e"
      by (simp only: read_lines_expense_step [OF item(1,2,3,4,6)] simp_thms)
    then have "e = ValueError \<or> (\<exists>w1. read_lines tf True w1 rest = Inl e)"
      by (auto split: option.splits)
    then show ?thesis using Cons.IH by blast
  next
    case skip
    from Cons.prems have "read_lines tf sec w rest = Inl e"
      by (simp only: read_lines_skip_step [OF skip])
    then show ?thesis by (rule Cons.IH)
  qed
qed

lemma read_lines_savings:
  "read_lines tf sec w ls = Inr w' \<Longrightarrow> \<not> savings w < 0 \<Longrightarrow>
   (\<forall>l \<in> set ls. prefix ''Savings:'' l \<longrightarrow> (\<forall>v. header_value tf l = Inr v \<longrightarrow> \<not> v < 0)) \<Longrightarrow>
   \<not> savings w' < 0"
proof (induction ls arbitrary: sec w)
  case Nil
  then show ?case by simp
next
  case (Cons line rest)
  have rest: "\<forall>l \<in> set rest. prefix ''Savings:'' l \<longrightarrow> (\<forall>v. header_value tf l = Inr v \<longrightarrow> \<not> v < 0)"
    using Cons.prems(3) by simp
  consider (inc) "prefix ''Income:'' line"
    | (sav) "\<not> prefix ''Income:'' line" "prefix ''Savings:'' line"
    | (goal) "\<not> prefix ''Income:'' line" "\<not> prefix ''Savings:'' line" "prefix ''SavingsGoal:'' line"
    | (exp) "\<not> prefix ''Income:'' line" "\<not> prefix ''Savings:'' line" "\<not> prefix ''SavingsGoal:'' line"
            "prefix ''Expenses:'' line"
    | (item) "\<not> prefix ''Income:'' line" "\<not> prefix ''Savings:'' line" "\<not> prefix ''SavingsGoal:'' line"
            "\<not> prefix ''Expenses:'' line" "sec" "strip line \<noteq> []"
    | (skip) "\<not> prefix ''Income:'' line" "\<not> prefix ''Savings:'' line" "\<not> prefix ''SavingsGoal:'' line"
            "\<not> prefix ''Expenses:'' line" "\<not> sec \<or> strip line = []"
    by blast
  then show ?case
  proof cases
    case inc
    from Cons.prems(1) obtain v where "read_lines tf sec (w\<lparr>income := v\<rparr>) rest = Inr w'"
      by (simp only: header_step(1) [OF inc] split: sum.splits) simp
    from Cons.IH [OF this _ rest] Cons.prems(2) show ?thesis by simp
  next
    case sav
    from Cons.prems(1) obtain v where v: "header_value tf line = Inr v"
      and r: "read_lines tf sec (w\<lparr>savings := v\<rparr>) rest = Inr w'"
      by (simp only: header_step(2) [OF sav] split: sum.splits) simp
    have "\<not> v < 0" using Cons.prems(3) sav(2) v by simp
    with Cons.IH [OF r _ rest] show ?thesis by simp
  next
    case goal
    from Cons.prems(1) obtain v where "read_lines tf sec (w\<lparr>savings_goal := v\<rparr>) rest = Inr w'"
      by (simp only: header_step(3) [OF goal] split: sum.splits) simp
    from Cons.IH [OF this _ rest] Cons.prems(2) show ?thesis by simp
  next
    case exp
    from Cons.prems(1) have "read_lines tf True w rest = Inr w'"
      by (simp only: header_step(4) [OF exp])
    from Cons.IH [OF this Cons.prems(2) rest] show ?thesis .
  next
    case item
    from Cons.prems(1) item(5) have
      "(case parse_expense tf line of None \<Rightarrow> Inl ValueError
        | Some (c, d, a) \<Rightarrow> read_lines tf True
            (w\<lparr>database := insert_row (database w) c d a,
               expenses := append_expense (expenses w) c (d, a)\<rparr>) rest) = Inr w'"
      by (simp only: read_lines_expense_step [OF item(1,2,3,4,6)] simp_thms)
    then obtain c d a where r: "read_lines tf True
            (w\<lparr>database := insert_row (database w) c d a,
               expenses := append_expense (expenses w) c (d, a)\<rparr>) rest = Inr w'"
      by (auto split: option.splits)
    from Cons.IH [OF r _ rest] Cons.prems(2) show ?thesis by simp
  next
    case skip
    from Cons.prems(1) have "read_lines tf sec w rest = Inr w'"
      by (simp only: read_lines_skip_step [OF skip])
    from Cons.IH [OF this Cons.prems(2) rest] show ?thesis .
  qed
qed

lemma header_line_not_value:
  assumes "prefix ''Expenses:'' line"
  shows "\<not> prefix ''Income:'' line" and "\<not> prefix ''Savings:'' line"
    and "\<not> prefix ''SavingsGoal:'' line"
  using assms by (cases line; simp)+

lemma expense_lines_filter:
  "expense_lines sec ls = filter (\<lambda>l. \<not> has_record_prefix l) (section_lines sec ls)"
  by (induction ls arbitrary: sec) (auto simp: has_record_prefix_def dest: header_line_not_value)

subsection \<open>The dictionary and the table\<close>

lemma map_snd_insert_rows:
  "map snd (insert_rows rows es) = map snd rows @ map stored es"
  by (induction es arbitrary: rows) (auto simp: insert_row_def stored_def)

lemma items_of_append_expense:
  "items_of (append_expense E c e) k = (if k = c then items_of E c @ [e] else items_of E k)"
  by (induction E c e rule: append_expense.induct) (auto simp: items_of_def)

lemma items_of_append_expenses:
  "items_of (append_expenses E es) k = items_of E k @ map snd (filter (\<lambda>x. fst x = k) es)"
  by (induction es arbitrary: E) (auto simp: items_of_append_expense)

lemma keys_append_expense:
  "prefix (map fst E) (map fst (append_expense E c e))"
  by (induction E c e rule: append_expense.induct) auto

lemma mset_entries_append_expense:
  "mset (entries (append_expense E c e)) = add_mset (c, e) (mset (entries E))"
  by (induction E c e rule: append_expense.induct) (auto simp: entries_def)

lemma mset_entries_append_expenses:
  "mset (entries (append_expenses E es)) = mset (entries E) + mset es"
  by (induction es arbitrary: E) (auto simp: mset_entries_append_expense)

lemma append_expense_new:
  "k \<notin> fst ` set A \<Longrightarrow> append_expense A k e = A @ [(k, [e])]"
  by (induction A k e rule: append_expense.induct) auto

lemma append_expense_last:
  "k \<notin> fst ` set A \<Longrightarrow> append_expense (A @ [(k, xs)]) k e = A @ [(k, xs @ [e])]"
  by (induction A k e rule: append_expense.induct) auto

lemma append_expenses_same_key:
  "k \<notin> fst ` set A \<Longrightarrow>
   append_expenses (A @ [(k, xs)]) (map (\<lambda>e. (k, e)) ys) = A @ [(k, xs @ ys)]"
  by (induction ys arbitrary: xs) (simp_all add: append_expense_last)

lemma append_expenses_category:
  assumes "k \<notin> fst ` set A" and "items \<noteq> []"
  shows "append_expenses A (map (\<lambda>e. (k, e)) items) = A @ [(k, items)]"
proof -
  obtain e ys where items: "items = e # ys" using assms(2) by (cases items) auto
  show ?thesis
    using append_expenses_same_key [OF assms(1), of "[e]" ys]
    by (simp add: items append_expense_new [OF assms(1)])
qed

lemma append_expenses_append:
  "append_expenses E (xs @ ys) = append_expenses (append_expenses E xs) ys"
  by (simp add: append_expenses_def)

lemma append_expenses_entries:
  "distinct (map fst (A @ E)) \<Longrightarrow> \<forall>(c, items) \<in> set E. items \<noteq> [] \<Longrightarrow>
   append_expenses A (entries E) = A @ E"
proof (induction E arbitrary: A)
  case Nil
  then show ?case by (simp add: entries_def)
next
  case (Cons x E)
  obtain k items where x: "x = (k, items)" by (cases x)
  have k: "k \<notin> fst ` set A" and ne: "items \<noteq> []"
    using Cons.prems x by auto
  have d: "distinct (map fst ((A @ [(k, items)]) @ E))"
    using Cons.prems(1) x by simp
  have rest: "\<forall>(c, items) \<in> set E. items \<noteq> []" using Cons.prems(2) by simp
  have "entries (x # E) = map (\<lambda>e. (k, e)) items @ entries E"
    by (simp add: entries_def x)
  then have "append_expenses A (entries (x # E)) =
      append_expenses (A @ [(k, items)]) (entries E)"
    by (simp add: append_expenses_append append_expenses_category [OF k ne])
  also have "\<dots> = (A @ [(k, items)]) @ E"
    by (rule Cons.IH [OF d rest])
  finally show ?case by (simp add: x)
qed

subsection \<open>Reading a written snapshot\<close>

lemma expense_part_entries:
  "concat (map (\<lambda>(category, items). concat (map (expense_line fmt category) items)) E) =
   concat (map (\<lambda>(c, e). expense_line fmt c e) (entries E))"
  by (induction E) (auto simp: entries_def comp_def)

lemma readlines_expense_lines:
  "\<forall>(c, d, a) \<in> set es. category_ok c \<and> plain_text d \<and> number_ok tf fmt a \<Longrightarrow>
   readlines (concat (map (\<lambda>(c, e). expense_line fmt c e) es)) =
     map (\<lambda>(c, e). expense_line fmt c e) es"
proof (induction es)
  case Nil
  show ?case by simp
next
  case (Cons x es)
  obtain c d a where x: "x = (c, d, a)" by (cases x)
  have ok: "category_ok c" "plain_text d" "number_ok tf fmt a"
    using Cons.prems x by auto
  have rest: "\<forall>(c, d, a) \<in> set es. category_ok c \<and> plain_text d \<and> number_ok tf fmt a"
    using Cons.prems by simp
  let ?body = "c @ '', '' @ d @ '', '' @ fmt a"
  have nl: "CHR 0x0A \<notin> set ?body" and cr: "CHR 0x0D \<notin> set ?body"
    using ok(1,2) number_okD(5,6) [OF ok(3)] by (simp_all add: category_ok_def plain_text_def)
  have "readlines (?body @ CHR 0x0A # concat (map (\<lambda>(c, e). expense_line fmt c e) es)) =
      (?body @ [CHR 0x0A]) # readlines (concat (map (\<lambda>(c, e). expense_line fmt c e) es))"
    using nl cr by (rule readlines_line)
  then show ?case using Cons.IH [OF rest] by (simp add: x expense_line_def)
qed

lemma entries_safe:
  assumes "snapshot_safe tf fmt w"
  shows "\<forall>(c, d, a) \<in> set (entries (expenses w)). category_ok c \<and> plain_text d \<and> number_ok tf fmt a"
  using assms unfolding snapshot_safe_def entries_def by fastforce

lemma read_lines_entries:
  "\<forall>(c, d, a) \<in> set es. category_ok c \<and> plain_text d \<and> number_ok tf fmt a \<Longrightarrow>
   read_lines tf True w (map (\<lambda>(c, e). expense_line fmt c e) es) =
     Inr (w\<lparr>database := insert_rows (database w) es,
            expenses := append_expenses (expenses w) es\<rparr>)"
proof (induction es arbitrary: w)
  case Nil
  show ?case by simp
next
  case (Cons x es)
  obtain c d a where x: "x = (c, d, a)" by (cases x)
  have ok: "category_ok c" "plain_text d" "number_ok tf fmt a"
    using Cons.prems x by auto
  have rest: "\<forall>(c, d, a) \<in> set es. category_ok c \<and> plain_text d \<and> number_ok tf fmt a"
    using Cons.prems by simp
  have ne: "strip (expense_line fmt c (d, a)) \<noteq> []"
    by (simp add: strip_expense_line [OF ok(1,3)])
  have "read_lines tf True w (expense_line fmt c (d, a) # map (\<lambda>(c, e). expense_line fmt c e) es) =
      read_lines tf True
        (w\<lparr>database := insert_row (database w) c d a,
           expenses := append_expense (expenses w) c (d, a)\<rparr>)
        (map (\<lambda>(c, e). expense_line fmt c e) es)"
    by (simp only: read_lines_expense_step [OF expense_line_not_record [OF ok(1)] ne]
        parse_expense_line [OF ok] option.case prod.case)
  then show ?case by (simp add: x Cons.IH [OF rest])
qed

lemma header_values:
  assumes "number_ok tf fmt x"
  shows "header_value tf (''Income: '' @ fmt x @ [CHR 0x0A]) = Inr x"
    and "header_value tf (''Savings: '' @ fmt x @ [CHR 0x0A]) = Inr x"
    and "header_value tf (''SavingsGoal: '' @ fmt x @ [CHR 0x0A]) = Inr x"
  using header_value_ok [OF assms, of "''Income''"] header_value_ok [OF assms, of "''Savings''"]
    header_value_ok [OF assms, of "''SavingsGoal''"] by simp_all

lemma snapshot_lines:
  assumes "snapshot_safe tf fmt w"
  shows "readlines (snapshot fmt w) =
     (''Income: '' @ fmt (income w) @ [CHR 0x0A]) #
     (''Savings: '' @ fmt (savings w) @ [CHR 0x0A]) #
     (''SavingsGoal: '' @ fmt (savings_goal w) @ [CHR 0x0A]) #
     (''Expenses:'' @ [CHR 0x0A]) #
     map (\<lambda>(c, e). expense_line fmt c e) (entries (expenses w))"
proof -
  let ?X = "concat (map (\<lambda>(c, e). expense_line fmt c e) (entries (expenses w)))"
  have n: "number_ok tf fmt (income w)" "number_ok tf fmt (savings w)"
    "number_ok tf fmt (savings_goal w)"
    using assms by (simp_all add: snapshot_safe_def)
  have s: "snapshot fmt w =
     ''Income: '' @ fmt (income w) @ CHR 0x0A #
     ''Savings: '' @ fmt (savings w) @ CHR 0x0A #
     ''SavingsGoal: '' @ fmt (savings_goal w) @ CHR 0x0A #
     ''Expenses:'' @ CHR 0x0A # ?X"
    by (simp add: snapshot_def expense_part_entries)
  have 1: "readlines (''Income: '' @ fmt (income w) @ CHR 0x0A # r) =
      (''Income: '' @ fmt (income w) @ [CHR 0x0A]) # readlines r" for r
    using readlines_line [of "''Income: '' @ fmt (income w)" r] number_okD(5,6) [OF n(1)] by simp
  have 2: "readlines (''Savings: '' @ fmt (savings w) @ CHR 0x0A # r) =
      (''Savings: '' @ fmt (savings w) @ [CHR 0x0A]) # readlines r" for r
    using readlines_line [of "''Savings: '' @ fmt (savings w)" r] number_okD(5,6) [OF n(2)] by simp
  have 3: "readlines (''SavingsGoal: '' @ fmt (savings_goal w) @ CHR 0x0A # r) =
      (''SavingsGoal: '' @ fmt (savings_goal w) @ [CHR 0x0A]) # readlines r" for r
    using readlines_line [of "''SavingsGoal: '' @ fmt (savings_goal w)" r] number_okD(5,6) [OF n(3)]
    by simp
  have 4: "readlines (''Expenses:'' @ CHR 0x0A # r) = (''Expenses:'' @ [CHR 0x0A]) # readlines r" for r
    using readlines_line [of "''Expenses:''" r] by simp
  have 5: "readlines ?X = map (\<lambda>(c, e). expense_line fmt c e) (entries (expenses w))"
    by (rule readlines_expense_lines [OF entries_safe [OF assms]])
  show ?thesis
    by (simp only: s 1 2 3 4 5)
qed

subsection \<open>The operations on the ledger\<close>

lemma total_expenses_update [simp]:
  "total_expenses (w\<lparr>deficit := d\<rparr>) = total_expenses w"
  "total_expenses (w\<lparr>savings := s\<rparr>) = total_expenses w"
  "total_expenses (w\<lparr>income := i\<rparr>) = total_expenses w"
  "total_expenses (w\<lparr>database := r\<rparr>) = total_expenses w"
  "total_expenses (w\<lparr>text_file := f\<rparr>) = total_expenses w"
  by (simp_all add: total_expenses_def)

text \<open>
  C7. For every goal \<open>\<ge> 0\<close>, \<open>set_savings_goal\<close> sets the savings goal to exactly that
  goal; for every goal \<open>< 0\<close> the savings goal (indeed the whole ledger) is unchanged.
\<close>

theorem set_savings_goal_sets:
  "(goal \<ge> 0 \<longrightarrow> savings_goal (set_savings_goal w goal) = goal) \<and>
   (goal < 0 \<longrightarrow> set_savings_goal w goal = w)"
  by (auto simp: set_savings_goal_def save_data_def dest: less_not_ge)

theorem set_savings_goal_sets_witness:
  "(0::pyfloat) \<le> Finite 6000 \<and>
   savings_goal (set_savings_goal (fresh [] None) (Finite 6000)) = Finite 6000 \<and>
   Finite (- 1) < (0::pyfloat) \<and>
   set_savings_goal (fresh [] None) (Finite (- 1)) = fresh [] None"
proof -
  have a: "(0::pyfloat) \<le> Finite 6000" and b: "Finite (- 1) < (0::pyfloat)"
    by (simp_all add: float_eval)
  show ?thesis
    using set_savings_goal_sets [of "Finite 6000" "fresh [] None"]
          set_savings_goal_sets [of "Finite (- 1)" "fresh [] None"] a b
    by simp
qed

subsection \<open>The savings adjustment\<close>

lemma adjust_deficit_case:
  assumes "income w - total_expenses w < 0"
  shows "deficit (adjust_savings_if_needed w) = - (income w - total_expenses w)"
    and "savings (adjust_savings_if_needed w) =
           clamp (savings w - (- (income w - total_expenses w)))"
    and "income (adjust_savings_if_needed w) = income w"
    and "total_expenses (adjust_savings_if_needed w) = total_expenses w"
  using assms by (simp_all add: adjust_savings_if_needed_def save_data_def Let_def clamp_def)

lemma adjust_no_deficit_case:
  assumes "\<not> income w - total_expenses w < 0"
  shows "adjust_savings_if_needed w = w"
  using assms by (simp add: adjust_savings_if_needed_def Let_def)

text \<open>
  C9 (as amended). When income minus total expenses is \<open>b < 0\<close>, that is, expenses exceed
  income by \<open>d = - b\<close>, each call of \<open>adjust_savings_if_needed\<close> sets the deficit to \<open>d\<close>
  and replaces the savings by the float nearest to savings minus \<open>d\<close>, or by 0 when that
  float is below 0. The second call finds the same shortfall and does the same again.
\<close>

theorem adjust_twice:
  assumes "income w - total_expenses w = b" and "b < 0"
  shows "deficit (adjust_savings_if_needed w) = - b \<and>
         savings (adjust_savings_if_needed w) = clamp (savings w - (- b)) \<and>
         deficit (adjust_savings_if_needed (adjust_savings_if_needed w)) = - b \<and>
         savings (adjust_savings_if_needed (adjust_savings_if_needed w)) =
           clamp (clamp (savings w - (- b)) - (- b))"
proof -
  let ?w1 = "adjust_savings_if_needed w"
  have lt: "income w - total_expenses w < 0" using assms by simp
  have d1: "deficit ?w1 = - b" and s1: "savings ?w1 = clamp (savings w - (- b))"
    and i1: "income ?w1 = income w" and t1: "total_expenses ?w1 = total_expenses w"
    using adjust_deficit_case [OF lt] assms(1) by simp_all
  have lt1: "income ?w1 - total_expenses ?w1 < 0"
    using lt by (simp only: i1 t1)
  have d2: "deficit (adjust_savings_if_needed ?w1) = - b"
    using adjust_deficit_case(1) [OF lt1] assms(1) by (simp only: i1 t1)
  have s2: "savings (adjust_savings_if_needed ?w1) = clamp (clamp (savings w - (- b)) - (- b))"
    using adjust_deficit_case(2) [OF lt1] assms(1) by (simp only: i1 t1 s1)
  from d1 s1 d2 s2 show ?thesis by blast
qed

theorem adjust_twice_witness:
  "income (fresh [] None\<lparr>income := Finite 500, savings := Finite 2000,
                         expenses := [(''Rent'', [(''Monthly Rent'', Finite 1000)])]\<rparr>)
     - total_expenses (fresh [] None\<lparr>income := Finite 500, savings := Finite 2000,
                         expenses := [(''Rent'', [(''Monthly Rent'', Finite 1000)])]\<rparr>)
     = Finite (- 500) \<and>
   Finite (- 500) < (0::pyfloat) \<and>
   deficit (adjust_savings_if_needed
      (fresh [] None\<lparr>income := Finite 500, savings := Finite 2000,
                      expenses := [(''Rent'', [(''Monthly Rent'', Finite 1000)])]\<rparr>)) = Finite 500 \<and>
   savings (adjust_savings_if_needed
      (fresh [] None\<lparr>income := Finite 500, savings := Finite 2000,
                      expenses := [(''Rent'', [(''Monthly Rent'', Finite 1000)])]\<rparr>)) = Finite 1500 \<and>
   savings (adjust_savings_if_needed (adjust_savings_if_needed
      (fresh [] None\<lparr>income := Finite 500, savings := Finite 2000,
                      expenses := [(''Rent'', [(''Monthly Rent'', Finite 1000)])]\<rparr>))) = Finite 1000"
proof -
  let ?w = "fresh [] None\<lparr>income := Finite 500, savings := Finite 2000,
                      expenses := [(''Rent'', [(''Monthly Rent'', Finite 1000)])]\<rparr>"
  have b: "income ?w - total_expenses ?w = Finite (- 500)"
    by (simp add: fresh_def total_expenses_def float_eval)
  have n: "Finite (- 500) < (0::pyfloat)"
    by (simp add: float_eval)
  have c1: "clamp (Finite 2000 - Finite 500) = Finite 1500"
    by (simp add: clamp_def float_eval)
  have c2: "clamp (Finite 1500 - Finite 500) = Finite 1000"
    by (simp add: clamp_def float_eval)
  show ?thesis
    using adjust_twice [OF b n] b n by (simp add: c1 c2)
qed

text \<open>
  C9 as stated fails: savings do not always drop by \<open>2 * d\<close>, and the second call does not
  always change the ledger. With savings 1e16 and expenses one above income, the float
  nearest to 1e16 minus 1 is 1e16: one call and two calls both leave the savings at 1e16,
  not at 1e16 minus 2, and the second call returns the ledger the first one returned.
\<close>

theorem adjust_twice_counterexample:
  "income (fresh [] None\<lparr>savings := Finite (10 ^ 16), expenses := [(''Food'', [(''Bread'', Finite 1)])]\<rparr>)
     - total_expenses (fresh [] None\<lparr>savings := Finite (10 ^ 16), expenses := [(''Food'', [(''Bread'', Finite 1)])]\<rparr>)
     = Finite (- 1) \<and>
   (0::pyfloat) < savings (fresh [] None\<lparr>savings := Finite (10 ^ 16), expenses := [(''Food'', [(''Bread'', Finite 1)])]\<rparr>) \<and>
   savings (adjust_savings_if_needed (adjust_savings_if_needed
      (fresh [] None\<lparr>savings := Finite (10 ^ 16), expenses := [(''Food'', [(''Bread'', Finite 1)])]\<rparr>)))
     = Finite (10 ^ 16) \<and>
   Finite (10 ^ 16) \<noteq> Finite (10 ^ 16 - 2) \<and>
   adjust_savings_if_needed (adjust_savings_if_needed
      (fresh [] None\<lparr>savings := Finite (10 ^ 16), expenses := [(''Food'', [(''Bread'', Finite 1)])]\<rparr>))
     = adjust_savings_if_needed
      (fresh [] None\<lparr>savings := Finite (10 ^ 16), expenses := [(''Food'', [(''Bread'', Finite 1)])]\<rparr>)"
  by (simp add: adjust_savings_if_needed_def save_data_def total_expenses_def fresh_def float_eval)

lemma add_expense_fields:
  assumes "0 < amount"
  shows "add_expense fmt w category description amount b =
           save_data_to_file fmt (adjust_savings_if_needed
             ((if b then save_expense_to_db
                           (w\<lparr>expenses := append_expense (expenses w) category (description, amount)\<rparr>)
                           category description amount
               else w\<lparr>expenses := append_expense (expenses w) category (description, amount)\<rparr>)))"
  using assms by (simp add: add_expense_def Let_def)

lemma save_data_to_file_fields [simp]:
  "income (save_data_to_file fmt w) = income w"
  "savings (save_data_to_file fmt w) = savings w"
  "savings_goal (save_data_to_file fmt w) = savings_goal w"
  "deficit (save_data_to_file fmt w) = deficit w"
  "expenses (save_data_to_file fmt w) = expenses w"
  "database (save_data_to_file fmt w) = database w"
  "total_expenses (save_data_to_file fmt w) = total_expenses w"
  by (simp_all add: save_data_to_file_def total_expenses_def)

lemma save_expense_to_db_fields [simp]:
  "income (save_expense_to_db w c d a) = income w"
  "savings (save_expense_to_db w c d a) = savings w"
  "deficit (save_expense_to_db w c d a) = deficit w"
  "expenses (save_expense_to_db w c d a) = expenses w"
  "total_expenses (save_expense_to_db w c d a) = total_expenses w"
  by (simp_all add: save_expense_to_db_def total_expenses_def)

lemma adjust_step:
  assumes "income w - total_expenses w = b" and "b < 0"
  shows "deficit (adjust_savings_if_needed w) = - b"
    and "savings (adjust_savings_if_needed w) = clamp (savings w - (- b))"
    and "income (adjust_savings_if_needed w) - total_expenses (adjust_savings_if_needed w) = b"
proof -
  have lt: "income w - total_expenses w < 0" using assms by simp
  show "deficit (adjust_savings_if_needed w) = - b"
    and "savings (adjust_savings_if_needed w) = clamp (savings w - (- b))"
    and "income (adjust_savings_if_needed w) - total_expenses (adjust_savings_if_needed w) = b"
    using adjust_deficit_case [OF lt] assms(1) by simp_all
qed

text \<open>
  C1 (as amended). On a ledger with no expenses, income 500 and savings \<open>S\<close>,
  \<open>add_expense("Rent", "Monthly Rent", 1000)\<close> already runs the adjustment: it leaves
  deficit 500 and, as savings, the float nearest to \<open>S - 500\<close>, or 0 when that float is
  below 0. The call of \<open>adjust_savings_if_needed\<close> that follows subtracts 500 in the same
  way a second time and leaves deficit 500.
\<close>

theorem add_expense_then_adjust:
  assumes "expenses w = []" and "income w = Finite 500"
  shows "deficit (add_expense fmt w ''Rent'' ''Monthly Rent'' (Finite 1000) b) = Finite 500 \<and>
         savings (add_expense fmt w ''Rent'' ''Monthly Rent'' (Finite 1000) b)
           = clamp (savings w - Finite 500) \<and>
         deficit (adjust_savings_if_needed
                    (add_expense fmt w ''Rent'' ''Monthly Rent'' (Finite 1000) b)) = Finite 500 \<and>
         savings (adjust_savings_if_needed
                    (add_expense fmt w ''Rent'' ''Monthly Rent'' (Finite 1000) b))
           = clamp (clamp (savings w - Finite 500) - Finite 500)"
proof -
  define w1 where "w1 =
    (if b then save_expense_to_db
                 (w\<lparr>expenses := append_expense (expenses w) ''Rent'' (''Monthly Rent'', Finite 1000)\<rparr>)
                 ''Rent'' ''Monthly Rent'' (Finite 1000)
     else w\<lparr>expenses := append_expense (expenses w) ''Rent'' (''Monthly Rent'', Finite 1000)\<rparr>)"
  define w2 where "w2 = add_expense fmt w ''Rent'' ''Monthly Rent'' (Finite 1000) b"
  have pos: "(0::pyfloat) < Finite 1000" by (simp add: float_eval)
  have w2: "w2 = save_data_to_file fmt (adjust_savings_if_needed w1)"
    unfolding w2_def w1_def by (rule add_expense_fields [OF pos])
  have t1: "total_expenses w1 = Finite 1000"
    unfolding w1_def using assms by (simp add: total_expenses_def float_eval)
  have i1: "income w1 = Finite 500" and s1: "savings w1 = savings w"
    unfolding w1_def using assms by simp_all
  have b1: "income w1 - total_expenses w1 = Finite (- 500)"
    by (simp add: t1 i1 float_eval)
  have neg: "Finite (- 500) < (0::pyfloat)" by (simp add: float_eval)
  have m: "- Finite (- 500) = Finite 500" by simp
  have a1: "deficit (adjust_savings_if_needed w1) = Finite 500"
    and a2: "savings (adjust_savings_if_needed w1) = clamp (savings w - Finite 500)"
    and a3: "income (adjust_savings_if_needed w1) - total_expenses (adjust_savings_if_needed w1)
               = Finite (- 500)"
    using adjust_step [OF b1 neg] by (simp_all only: m s1)
  have d2: "deficit w2 = Finite 500" and s2: "savings w2 = clamp (savings w - Finite 500)"
    and b2: "income w2 - total_expenses w2 = Finite (- 500)"
    using a1 a2 a3 by (simp_all add: w2)
  have d3: "deficit (adjust_savings_if_needed w2) = Finite 500"
    and s3: "savings (adjust_savings_if_needed w2) = clamp (clamp (savings w - Finite 500) - Finite 500)"
    using adjust_step(1,2) [OF b2 neg] by (simp_all only: m s2)
  from d2 s2 d3 s3 show ?thesis unfolding w2_def by blast
qed


theorem add_expense_then_adjust_witness:
  "expenses (fresh [] None\<lparr>income := Finite 500, savings := Finite 2000\<rparr>) = [] \<and>
   income (fresh [] None\<lparr>income := Finite 500, savings := Finite 2000\<rparr>) = Finite 500 \<and>
   savings (add_expense sample_fmt (fresh [] None\<lparr>income := Finite 500, savings := Finite 2000\<rparr>)
              ''Rent'' ''Monthly Rent'' (Finite 1000) True) = Finite 1500 \<and>
   savings (adjust_savings_if_needed
             (add_expense sample_fmt (fresh [] None\<lparr>income := Finite 500, savings := Finite 2000\<rparr>)
                ''Rent'' ''Monthly Rent'' (Finite 1000) True)) = Finite 1000 \<and>
   deficit (adjust_savings_if_needed
             (add_expense sample_fmt (fresh [] None\<lparr>income := Finite 500, savings := Finite 2000\<rparr>)
                ''Rent'' ''Monthly Rent'' (Finite 1000) True)) = Finite 500 \<and>
   savings (adjust_savings_if_needed
             (add_expense sample_fmt (fresh [] None\<lparr>income := Finite 500, savings := Finite 5000000000000000000\<rparr>)
                ''Rent'' ''Monthly Rent'' (Finite 1000) True)) = Finite 5000000000000000000"
proof -
  have c1: "clamp (Finite 2000 - Finite 500) = Finite 1500"
    and c2: "clamp (Finite 1500 - Finite 500) = Finite 1000"
    and c3: "clamp (Finite 5000000000000000000 - Finite 500) = Finite 5000000000000000000"
    by (simp_all add: clamp_def float_eval)
  show ?thesis
    using add_expense_then_adjust [of "fresh [] None\<lparr>income := Finite 500, savings := Finite 2000\<rparr>"
        sample_fmt True]
      add_expense_then_adjust [of "fresh [] None\<lparr>income := Finite 500, savings := Finite 5000000000000000000\<rparr>"
        sample_fmt True]
    by (simp add: fresh_def c1 c2 c3)
qed

text \<open>
  C1 as stated fails: with \<open>S = 2000\<close> the two calls leave savings 1000, not
  \<open>max (2000 - 500) 0 = 1500\<close>.
\<close>

theorem add_expense_then_adjust_counterexample:
  "\<not> (deficit (adjust_savings_if_needed
          (add_expense sample_fmt (fresh [] None\<lparr>income := Finite 500, savings := Finite 2000\<rparr>)
             ''Rent'' ''Monthly Rent'' (Finite 1000) True)) = Finite 500 \<and>
       savings (adjust_savings_if_needed
          (add_expense sample_fmt (fresh [] None\<lparr>income := Finite 500, savings := Finite 2000\<rparr>)
             ''Rent'' ''Monthly Rent'' (Finite 1000) True)) = max (Finite 2000 - Finite 500) 0)"
  by (simp add: add_expense_def adjust_savings_if_needed_def save_data_to_file_def
      save_expense_to_db_def save_data_def total_expenses_def fresh_def max_def float_eval)

text \<open>
  C2. The claim: after \<open>add_expense\<close> or \<open>adjust_savings_if_needed\<close> the deficit is
  \<open>max 0 (total_expenses - income)\<close>. The code sets the deficit only when expenses exceed
  income and never resets it. From a fresh ledger: income 500, an expense of 1000 (deficit
  500), income raised by 1500, then \<open>adjust_savings_if_needed\<close>: expenses 1000 are within
  income 2000, yet the deficit is still 500.
\<close>

theorem stale_deficit:
  "deficit (adjust_savings_if_needed
      (add_income (add_expense sample_fmt (add_income (fresh [] None) (Finite 500))
                     ''Rent'' ''Monthly Rent'' (Finite 1000) True) (Finite 1500))) = Finite 500 \<and>
   total_expenses (adjust_savings_if_needed
      (add_income (add_expense sample_fmt (add_income (fresh [] None) (Finite 500))
                     ''Rent'' ''Monthly Rent'' (Finite 1000) True) (Finite 1500))) = Finite 1000 \<and>
   income (adjust_savings_if_needed
      (add_income (add_expense sample_fmt (add_income (fresh [] None) (Finite 500))
                     ''Rent'' ''Monthly Rent'' (Finite 1000) True) (Finite 1500))) = Finite 2000 \<and>
   max 0 (total_expenses (adjust_savings_if_needed
      (add_income (add_expense sample_fmt (add_income (fresh [] None) (Finite 500))
                     ''Rent'' ''Monthly Rent'' (Finite 1000) True) (Finite 1500)))
     - income (adjust_savings_if_needed
      (add_income (add_expense sample_fmt (add_income (fresh [] None) (Finite 500))
                     ''Rent'' ''Monthly Rent'' (Finite 1000) True) (Finite 1500)))) = 0"
  by (simp add: add_expense_def add_income_def adjust_savings_if_needed_def save_data_to_file_def
      save_expense_to_db_def save_data_def total_expenses_def fresh_def max_def float_eval)

text \<open>
  C6 (as amended). A non-positive amount makes \<open>add_income\<close> and \<open>add_expense\<close> return the
  ledger unchanged, and a negative goal does the same for \<open>set_savings_goal\<close>. The
  functions have no error result. A goal of 0 is stored.
\<close>

theorem nonpositive_noop:
  "(amount \<le> 0 \<longrightarrow> add_income w amount = w) \<and>
   (amount \<le> 0 \<longrightarrow> add_expense fmt w category description amount b = w) \<and>
   (goal < 0 \<longrightarrow> set_savings_goal w goal = w)"
  by (auto simp: add_income_def add_expense_def set_savings_goal_def
      dest: le_not_greater less_not_ge)

theorem nonpositive_noop_witness:
  "(0::pyfloat) \<le> 0 \<and> Finite (- 1) < (0::pyfloat) \<and>
   add_income (fresh [] None) 0 = fresh [] None \<and>
   add_expense sample_fmt (fresh [] None) ''Rent'' ''Monthly Rent'' 0 True = fresh [] None \<and>
   set_savings_goal (fresh [] None) (Finite (- 1)) = fresh [] None"
proof -
  have a: "(0::pyfloat) \<le> 0" and b: "Finite (- 1) < (0::pyfloat)"
    by (simp_all add: float_eval)
  show ?thesis
    using nonpositive_noop [of 0 "fresh [] None" sample_fmt "''Rent''" "''Monthly Rent''" True
        "Finite (- 1)"] a b
    by simp
qed

text \<open>
  C6 as stated fails at goal 0: \<open>set_savings_goal\<close> stores it, so a ledger whose goal was
  6000 is changed.
\<close>

theorem zero_goal_counterexample:
  "(0::pyfloat) \<le> 0 \<and>
   set_savings_goal (fresh [] None\<lparr>savings_goal := Finite 6000\<rparr>) 0
     \<noteq> fresh [] None\<lparr>savings_goal := Finite 6000\<rparr> \<and>
   savings_goal (set_savings_goal (fresh [] None\<lparr>savings_goal := Finite 6000\<rparr>) 0) = 0"
proof -
  have z: "(0::pyfloat) \<le> 0" by (simp add: float_eval)
  have "savings_goal (set_savings_goal (fresh [] None\<lparr>savings_goal := Finite 6000\<rparr>) 0) = 0"
    by (simp add: set_savings_goal_def save_data_def z)
  moreover have "savings_goal (fresh [] None\<lparr>savings_goal := Finite 6000\<rparr>) = Finite 6000"
    by simp
  moreover have "Finite 6000 \<noteq> (0::pyfloat)" by (simp add: zero_pyfloat_def)
  ultimately show ?thesis using z by metis
qed

subsection \<open>Writing and loading the snapshot\<close>

text \<open>
  C3 (as amended). Take a ledger whose snapshot is safe to read back: categories and
  descriptions without \<open>", "\<close> and without line breaks, categories that begin neither
  with white space nor with a record prefix and hold at least one item each, numbers
  printed in a form \<open>float\<close> reads back. Writing its snapshot and loading that file
  into a ledger whose dictionary is empty (as the constructor does) succeeds and gives the
  same income, savings, savings goal and expenses dictionary, categories and items in the
  same order; the table then holds those expenses and nothing else.
\<close>

theorem snapshot_roundtrip:
  assumes "snapshot_safe tf fmt w" and "expenses w0 = []"
      and "text_file w0 = text_file (save_data_to_file fmt w)"
  shows "read_data_from_file tf w0 =
     Inr (w0\<lparr>income := income w, savings := savings w, savings_goal := savings_goal w,
            expenses := expenses w, original_savings := savings w,
            database := insert_rows [] (entries (expenses w))\<rparr>)"
proof -
  let ?es = "entries (expenses w)"
  let ?R = "map (\<lambda>(c, e). expense_line fmt c e) ?es"
  have n: "number_ok tf fmt (income w)" "number_ok tf fmt (savings w)"
    "number_ok tf fmt (savings_goal w)"
    and dist: "distinct (map fst ([] @ expenses w))"
    and ne: "\<forall>(c, items) \<in> set (expenses w). items \<noteq> []"
    using assms(1) by (auto simp: snapshot_safe_def)
  have tfile: "text_file w0 = Some (snapshot fmt w)"
    using assms(3) by (simp add: save_data_to_file_def)
  have 1: "read_lines tf sec v ((''Income: '' @ fmt (income w) @ [CHR 0x0A]) # r) =
      read_lines tf sec (v\<lparr>income := income w\<rparr>) r" for sec v r
  proof -
    have "prefix ''Income:'' (''Income: '' @ fmt (income w) @ [CHR 0x0A])" by simp
    from header_step(1) [OF this] show ?thesis
      by (simp only: header_values(1) [OF n(1)] sum.case)
  qed
  have 2: "read_lines tf sec v ((''Savings: '' @ fmt (savings w) @ [CHR 0x0A]) # r) =
      read_lines tf sec (v\<lparr>savings := savings w\<rparr>) r" for sec v r
  proof -
    have "\<not> prefix ''Income:'' (''Savings: '' @ fmt (savings w) @ [CHR 0x0A])"
      and "prefix ''Savings:'' (''Savings: '' @ fmt (savings w) @ [CHR 0x0A])" by simp_all
    from header_step(2) [OF this] show ?thesis
      by (simp only: header_values(2) [OF n(2)] sum.case)
  qed
  have 3: "read_lines tf sec v ((''SavingsGoal: '' @ fmt (savings_goal w) @ [CHR 0x0A]) # r) =
      read_lines tf sec (v\<lparr>savings_goal := savings_goal w\<rparr>) r" for sec v r
  proof -
    have "\<not> prefix ''Income:'' (''SavingsGoal: '' @ fmt (savings_goal w) @ [CHR 0x0A])"
      and "\<not> prefix ''Savings:'' (''SavingsGoal: '' @ fmt (savings_goal w) @ [CHR 0x0A])"
      and "prefix ''SavingsGoal:'' (''SavingsGoal: '' @ fmt (savings_goal w) @ [CHR 0x0A])"
      by simp_all
    from header_step(3) [OF this] show ?thesis
      by (simp only: header_values(3) [OF n(3)] sum.case)
  qed
  have 4: "read_lines tf sec v ((''Expenses:'' @ [CHR 0x0A]) # r) = read_lines tf True v r" for sec v r
  proof -
    have "\<not> prefix ''Income:'' (''Expenses:'' @ [CHR 0x0A])"
      and "\<not> prefix ''Savings:'' (''Expenses:'' @ [CHR 0x0A])"
      and "\<not> prefix ''SavingsGoal:'' (''Expenses:'' @ [CHR 0x0A])"
      and "prefix ''Expenses:'' (''Expenses:'' @ [CHR 0x0A])"
      by simp_all
    from header_step(4) [OF this] show ?thesis .
  qed
  have 5: "read_lines tf True v ?R =
      Inr (v\<lparr>database := insert_rows (database v) ?es,
             expenses := append_expenses (expenses v) ?es\<rparr>)" for v
    by (rule read_lines_entries [OF entries_safe [OF assms(1)]])
  have 6: "append_expenses [] ?es = expenses w"
    using append_expenses_entries [OF dist ne] by simp
  have "read_lines tf False (w0\<lparr>database := []\<rparr>) (readlines (snapshot fmt w)) =
      Inr (w0\<lparr>database := [], income := income w, savings := savings w,
             savings_goal := savings_goal w,
             database := insert_rows [] ?es, expenses := append_expenses [] ?es\<rparr>)"
    by (simp only: snapshot_lines [OF assms(1)] 1 2 3 4 5) (simp add: assms(2))
  then show ?thesis
    by (simp add: read_data_from_file_def tfile 6)
qed

theorem snapshot_roundtrip_witness:
  "snapshot_safe sample_float sample_fmt example_ledger \<and>
   expenses (fresh [(1, ''Old'', ''Row'', Some (Finite 1))]
               (Some (snapshot sample_fmt example_ledger))) = [] \<and>
   read_data_from_file sample_float
       (fresh [(1, ''Old'', ''Row'', Some (Finite 1))] (Some (snapshot sample_fmt example_ledger))) =
     Inr \<lparr>income = Finite 500, savings = Finite 1000, savings_goal = Finite 0,
          expenses = [(''Food'', [(''Bread'', Finite (9 / 4)), (''Milk'', Finite (7 / 2))]),
                      (''Rent'', [(''Monthly Rent'', Finite 1000)])],
          original_savings = Finite 1000, deficit = Finite 0,
          database = [(1, ''Food'', ''Bread'', Some (Finite (9 / 4))),
                      (2, ''Food'', ''Milk'', Some (Finite (7 / 2))),
                      (3, ''Rent'', ''Monthly Rent'', Some (Finite 1000))],
          text_file = Some (snapshot sample_fmt example_ledger)\<rparr>"
proof -
  have safe: "snapshot_safe sample_float sample_fmt example_ledger"
    by (simp add: snapshot_safe_def example_ledger_def number_ok_def sample_float_def sample_fmt_def
        category_ok_def plain_text_def isspace_def sublist_code)
  have e: "expenses (fresh [(1, ''Old'', ''Row'', Some (Finite 1))]
                       (Some (snapshot sample_fmt example_ledger))) = []"
    by (simp add: fresh_def)
  have f: "text_file (fresh [(1, ''Old'', ''Row'', Some (Finite 1))]
                        (Some (snapshot sample_fmt example_ledger))) =
      text_file (save_data_to_file sample_fmt example_ledger)"
    by (simp add: fresh_def save_data_to_file_def)
  have en: "entries (expenses example_ledger) =
      [(''Food'', ''Bread'', Finite (9 / 4)), (''Food'', ''Milk'', Finite (7 / 2)),
       (''Rent'', ''Monthly Rent'', Finite 1000)]"
    by (simp add: entries_def example_ledger_def)
  have rows: "insert_rows [] (entries (expenses example_ledger)) =
      [(1, ''Food'', ''Bread'', Some (Finite (9 / 4))), (2, ''Food'', ''Milk'', Some (Finite (7 / 2))),
       (3, ''Rent'', ''Monthly Rent'', Some (Finite 1000))]"
    by (simp add: en insert_row_def next_id_def sql_real_def)
  show ?thesis
    using snapshot_roundtrip [OF safe e f] safe
    by (simp add: rows e) (simp add: fresh_def example_ledger_def zero_pyfloat_def)
qed

text \<open>
  C3 as stated, for every ledger, fails in two ways. A category that contains \<open>", "\<close> is
  written as a line of four fields, and the load of that file raises ValueError. And a
  load into the ledger that wrote the file does not reproduce its dictionary: the entries
  of the file are appended to the ones already there.
\<close>

theorem snapshot_roundtrip_counterexample:
  "read_data_from_file sample_float
       (fresh [] (text_file (save_data_to_file sample_fmt garden_ledger))) = Inl ValueError \<and>
   map_sum id expenses
       (read_data_from_file sample_float (save_data_to_file sample_fmt example_ledger)) =
     Inr [(''Food'', [(''Bread'', Finite (9 / 4)), (''Milk'', Finite (7 / 2)),
                      (''Bread'', Finite (9 / 4)), (''Milk'', Finite (7 / 2))]),
          (''Rent'', [(''Monthly Rent'', Finite 1000), (''Monthly Rent'', Finite 1000)])] \<and>
   expenses example_ledger \<noteq>
     [(''Food'', [(''Bread'', Finite (9 / 4)), (''Milk'', Finite (7 / 2)),
                  (''Bread'', Finite (9 / 4)), (''Milk'', Finite (7 / 2))]),
      (''Rent'', [(''Monthly Rent'', Finite 1000), (''Monthly Rent'', Finite 1000)])]"
  by (simp add: read_data_from_file_def save_data_to_file_def snapshot_def expense_line_def
      garden_ledger_def example_ledger_def fresh_def header_value_def strip_def isspace_def
      sample_float_def sample_fmt_def split_on.simps insert_row_def next_id_def)

subsection \<open>Loading an arbitrary file\<close>

lemma parse_expense_None_iff:
  "parse_expense tf line = None \<longleftrightarrow>
     (length (split_on '', '' (strip line)) \<noteq> 3 \<or> tf (split_on '', '' (strip line) ! 2) = None)"
proof (cases "split_on '', '' (strip line)")
  case Nil
  then show ?thesis by (simp add: parse_expense_def)
next
  case (Cons a r1)
  show ?thesis
  proof (cases r1)
    case Nil
    with Cons show ?thesis by (simp add: parse_expense_def)
  next
    case (Cons b r2)
    note c2 = this
    show ?thesis
    proof (cases r2)
      case Nil
      with \<open>split_on '', '' (strip line) = a # r1\<close> c2 show ?thesis by (simp add: parse_expense_def)
    next
      case (Cons c r3)
      with \<open>split_on '', '' (strip line) = a # r1\<close> c2 show ?thesis
        by (cases r3) (auto simp: parse_expense_def split: option.splits)
    qed
  qed
qed

lemma keys_append_expenses:
  "prefix (map fst E) (map fst (append_expenses E es))"
proof (induction es arbitrary: E)
  case Nil
  show ?case by simp
next
  case (Cons x es)
  obtain c e where x: "x = (c, e)" by (cases x)
  have "prefix (map fst E) (map fst (append_expense E c e))" by (rule keys_append_expense)
  also have "prefix \<dots> (map fst (append_expenses (append_expense E c e) es))" by (rule Cons.IH)
  finally show ?case by (simp add: x)
qed

lemma read_data_from_file_result:
  assumes "text_file w = Some content" and "read_data_from_file tf w = Inr w'"
  shows "list_all (\<lambda>l. parse_expense tf l \<noteq> None) (expense_lines False (readlines content))"
    and "database w' = insert_rows [] (map (the \<circ> parse_expense tf) (expense_lines False (readlines content)))"
    and "expenses w' = append_expenses (expenses w) (map (the \<circ> parse_expense tf) (expense_lines False (readlines content)))"
proof -
  from assms obtain w1 where
    r: "read_lines tf False (w\<lparr>database := []\<rparr>) (readlines content) = Inr w1"
    and w': "w' = w1\<lparr>original_savings := savings w1\<rparr>"
    by (auto simp: read_data_from_file_def split: sum.splits)
  from read_lines_result [OF r] w'
  show "list_all (\<lambda>l. parse_expense tf l \<noteq> None) (expense_lines False (readlines content))"
    and "database w' = insert_rows [] (map (the \<circ> parse_expense tf) (expense_lines False (readlines content)))"
    and "expenses w' = append_expenses (expenses w) (map (the \<circ> parse_expense tf) (expense_lines False (readlines content)))"
    by simp_all
qed

lemma map_Some_the:
  "list_all (\<lambda>l. f l \<noteq> None) ls \<Longrightarrow> map Some (map (the \<circ> f) ls) = map f ls"
  by (induction ls) auto

lemma map_option_stored:
  "list_all (\<lambda>l. f l \<noteq> None) ls \<Longrightarrow>
   map (Some \<circ> stored \<circ> the \<circ> f) ls = map (map_option stored \<circ> f) ls"
  by (induction ls) auto

text \<open>
  C4 (as amended). Count as expense lines the non-blank lines after the first
  \<open>Expenses:\<close> line that carry none of the four record prefixes. When the load of a file
  completes, the table holds exactly one row for each of them, in the file's order, the
  row's fields being the parsed fields of that line, with NULL for an amount that is nan;
  no row of an earlier load is left. If the dictionary was empty before the load (as in the
  constructor), the rows of the table and the flattened dictionary, stored in that way, are
  the same multiset afterwards, and \<open>add_expense\<close> of a float with \<open>save_to_db = True\<close>,
  which also saves the file, keeps them the same.
\<close>

theorem load_rebuilds_table:
  "(text_file w = Some content \<and> read_data_from_file tf w = Inr w' \<longrightarrow>
      map (Some \<circ> snd) (database w') =
        map (map_option stored \<circ> parse_expense tf)
          (filter (\<lambda>l. \<not> has_record_prefix l) (section_lines False (readlines content))) \<and>
      length (database w') =
        length (filter (\<lambda>l. \<not> has_record_prefix l) (section_lines False (readlines content)))) \<and>
   (expenses w = [] \<and> read_data_from_file tf w = Inr w' \<longrightarrow>
      mset (map snd (database w')) = mset (map stored (entries (expenses w')))) \<and>
   (0 < amount \<and> mset (map snd (database v)) = mset (map stored (entries (expenses v))) \<longrightarrow>
      mset (map snd (database (add_expense fmt v category description amount True))) =
      mset (map stored (entries (expenses (add_expense fmt v category description amount True)))))"
proof (intro conjI impI)
  assume a: "text_file w = Some content \<and> read_data_from_file tf w = Inr w'"
  let ?L = "filter (\<lambda>l. \<not> has_record_prefix l) (section_lines False (readlines content))"
  let ?P = "map (the \<circ> parse_expense tf) ?L"
  have L: "expense_lines False (readlines content) = ?L" by (rule expense_lines_filter)
  have db: "map snd (database w') = map stored ?P"
    using read_data_from_file_result(2) [of w content tf w'] a
    by (simp add: map_snd_insert_rows L)
  have ok: "list_all (\<lambda>l. parse_expense tf l \<noteq> None) ?L"
    using read_data_from_file_result(1) [of w content tf w'] a by (simp add: L)
  have "map (Some \<circ> snd) (database w') = map Some (map snd (database w'))" by simp
  also have "\<dots> = map (Some \<circ> stored \<circ> the \<circ> parse_expense tf) ?L"
    by (simp only: db) simp
  also have "\<dots> = map (map_option stored \<circ> parse_expense tf) ?L"
    by (rule map_option_stored [OF ok])
  finally show "map (Some \<circ> snd) (database w') = map (map_option stored \<circ> parse_expense tf) ?L" .
  have "length (map snd (database w')) = length (map stored ?P)" by (simp only: db)
  then show "length (database w') = length ?L" by simp
next
  assume a: "expenses w = [] \<and> read_data_from_file tf w = Inr w'"
  show "mset (map snd (database w')) = mset (map stored (entries (expenses w')))"
  proof (cases "text_file w")
    case None
    with a show ?thesis by (auto simp: read_data_from_file_def entries_def)
  next
    case (Some content)
    let ?P = "map (the \<circ> parse_expense tf) (expense_lines False (readlines content))"
    from a have r: "read_data_from_file tf w = Inr w'" and e: "expenses w = []" by simp_all
    have d: "map snd (database w') = map stored ?P"
      using read_data_from_file_result(2) [OF Some r] by (simp add: map_snd_insert_rows)
    have "mset (entries (expenses w')) = mset ?P"
      using read_data_from_file_result(3) [OF Some r]
      by (simp only: e mset_entries_append_expenses) (simp add: entries_def)
    then have "image_mset stored (mset (entries (expenses w'))) = image_mset stored (mset ?P)"
      by (rule arg_cong)
    then show ?thesis by (simp only: d mset_map)
  qed
next
  assume a: "0 < amount \<and> mset (map snd (database v)) = mset (map stored (entries (expenses v)))"
  then have pos: "0 < amount" by simp
  have "mset (entries (append_expense (expenses v) category (description, amount))) =
      add_mset (category, description, amount) (mset (entries (expenses v)))"
    by (rule mset_entries_append_expense)
  then have "mset (map stored (entries (append_expense (expenses v) category (description, amount)))) =
      add_mset (stored (category, description, amount)) (mset (map stored (entries (expenses v))))"
    by simp
  then show "mset (map snd (database (add_expense fmt v category description amount True))) =
      mset (map stored (entries (expenses (add_expense fmt v category description amount True))))"
    using a
    by (simp add: add_expense_fields [OF pos] adjust_savings_if_needed_def save_data_def Let_def
        save_expense_to_db_def insert_row_def stored_def)
qed

theorem load_rebuilds_table_witness:
  "text_file (fresh [(1, ''Old'', ''Row'', Some (Finite 7))]
       (Some ''Income: 500.0\<newline>Expenses:\<newline>Food, Bread, 2.25\<newline>Rent, Monthly Rent, nan\<newline>''))
     = Some ''Income: 500.0\<newline>Expenses:\<newline>Food, Bread, 2.25\<newline>Rent, Monthly Rent, nan\<newline>'' \<and>
   expenses (fresh [(1, ''Old'', ''Row'', Some (Finite 7))]
       (Some ''Income: 500.0\<newline>Expenses:\<newline>Food, Bread, 2.25\<newline>Rent, Monthly Rent, nan\<newline>'')) = [] \<and>
   read_data_from_file sample_float (fresh [(1, ''Old'', ''Row'', Some (Finite 7))]
       (Some ''Income: 500.0\<newline>Expenses:\<newline>Food, Bread, 2.25\<newline>Rent, Monthly Rent, nan\<newline>''))
     = Inr \<lparr>income = Finite 500, savings = 0, savings_goal = 0,
            expenses = [(''Food'', [(''Bread'', Finite (9 / 4))]), (''Rent'', [(''Monthly Rent'', NaN)])],
            original_savings = 0, deficit = 0,
            database = [(1, ''Food'', ''Bread'', Some (Finite (9 / 4))), (2, ''Rent'', ''Monthly Rent'', None)],
            text_file = Some ''Income: 500.0\<newline>Expenses:\<newline>Food, Bread, 2.25\<newline>Rent, Monthly Rent, nan\<newline>''\<rparr> \<and>
   filter (\<lambda>l. \<not> has_record_prefix l) (section_lines False
       (readlines ''Income: 500.0\<newline>Expenses:\<newline>Food, Bread, 2.25\<newline>Rent, Monthly Rent, nan\<newline>''))
     = [''Food, Bread, 2.25\<newline>'', ''Rent, Monthly Rent, nan\<newline>''] \<and>
   (0::pyfloat) < Finite 7 \<and>
   mset (map snd (database (add_expense sample_fmt
       \<lparr>income = Finite 500, savings = 0, savings_goal = 0,
            expenses = [(''Food'', [(''Bread'', Finite (9 / 4))]), (''Rent'', [(''Monthly Rent'', NaN)])],
            original_savings = 0, deficit = 0,
            database = [(1, ''Food'', ''Bread'', Some (Finite (9 / 4))), (2, ''Rent'', ''Monthly Rent'', None)],
            text_file = Some ''Income: 500.0\<newline>Expenses:\<newline>Food, Bread, 2.25\<newline>Rent, Monthly Rent, nan\<newline>''\<rparr>
       ''Food'' ''Eggs'' (Finite 7) True))) =
   mset [(''Food'', ''Bread'', Some (Finite (9 / 4))), (''Food'', ''Eggs'', Some (Finite 7)),
         (''Rent'', ''Monthly Rent'', None)]"
proof -
  let ?c = "''Income: 500.0\<newline>Expenses:\<newline>Food, Bread, 2.25\<newline>Rent, Monthly Rent, nan\<newline>''"
  let ?w = "fresh [(1, ''Old'', ''Row'', Some (Finite 7))] (Some ?c)"
  let ?w' = "\<lparr>income = Finite 500, savings = 0, savings_goal = 0,
            expenses = [(''Food'', [(''Bread'', Finite (9 / 4))]), (''Rent'', [(''Monthly Rent'', NaN)])],
            original_savings = 0, deficit = 0,
            database = [(1, ''Food'', ''Bread'', Some (Finite (9 / 4))), (2, ''Rent'', ''Monthly Rent'', None)],
            text_file = Some ?c\<rparr>"
  have f: "text_file ?w = Some ?c" and e: "expenses ?w = []"
    by (simp_all add: fresh_def)
  have r: "read_data_from_file sample_float ?w = Inr ?w'"
    by (simp add: read_data_from_file_def fresh_def header_value_def strip_def isspace_def
        sample_float_def split_on.simps insert_row_def next_id_def sql_real_def)
  have l: "filter (\<lambda>l. \<not> has_record_prefix l) (section_lines False (readlines ?c)) =
      [''Food, Bread, 2.25\<newline>'', ''Rent, Monthly Rent, nan\<newline>'']"
    by (simp add: strip_def isspace_def has_record_prefix_def)
  have p: "(0::pyfloat) < Finite 7" by (simp add: float_eval)
  have m: "mset (map snd (database ?w')) = mset (map stored (entries (expenses ?w')))"
    by (simp add: entries_def stored_def sql_real_def)
  have en: "map stored (entries (expenses (add_expense sample_fmt ?w' ''Food'' ''Eggs'' (Finite 7) True))) =
      [(''Food'', ''Bread'', Some (Finite (9 / 4))), (''Food'', ''Eggs'', Some (Finite 7)),
       (''Rent'', ''Monthly Rent'', None)]"
    by (simp add: add_expense_fields [OF p] adjust_savings_if_needed_def save_data_def
        save_expense_to_db_def Let_def entries_def stored_def sql_real_def)
  show ?thesis
    using load_rebuilds_table [of ?w ?c sample_float ?w' "Finite 7" ?w' sample_fmt "''Food''" "''Eggs''"]
      f e r l m p
    by (simp only: en)
qed

text \<open>
  C4 as stated fails in three ways. \<open>add_expense\<close> with \<open>save_to_db = False\<close> stores the
  expense in the dictionary and saves the file but inserts no row. A load into a ledger
  whose dictionary is not empty empties the table and keeps the dictionary. And a well
  formed expense line whose category begins with a record prefix, here \<open>Expenses:2024\<close>, is
  not read as an expense: the file has one expense line and the table no row.
\<close>

theorem load_rebuilds_table_counterexample:
  "map snd (database (add_expense sample_fmt (fresh [] None) ''Food'' ''Bread'' (Finite (9 / 4)) False)) = [] \<and>
   entries (expenses (add_expense sample_fmt (fresh [] None) ''Food'' ''Bread'' (Finite (9 / 4)) False)) =
     [(''Food'', ''Bread'', Finite (9 / 4))] \<and>
   text_file (add_expense sample_fmt (fresh [] None) ''Food'' ''Bread'' (Finite (9 / 4)) False) \<noteq> None \<and>
   map_sum id (\<lambda>w. (map snd (database w), entries (expenses w)))
       (read_data_from_file sample_float (example_ledger\<lparr>text_file := Some ''Expenses:\<newline>''\<rparr>)) =
     Inr ([], [(''Food'', ''Bread'', Finite (9 / 4)), (''Food'', ''Milk'', Finite (7 / 2)),
               (''Rent'', ''Monthly Rent'', Finite 1000)]) \<and>
   section_lines False (readlines ''Expenses:\<newline>Expenses:2024, x, 7.0\<newline>'')
     = [''Expenses:2024, x, 7.0\<newline>''] \<and>
   parse_expense sample_float ''Expenses:2024, x, 7.0\<newline>'' = Some (''Expenses:2024'', ''x'', Finite 7) \<and>
   expense_line sample_fmt ''Expenses:2024'' (''x'', Finite 7) = ''Expenses:2024, x, 7.0\<newline>'' \<and>
   map_sum id database
       (read_data_from_file sample_float (fresh [] (Some ''Expenses:\<newline>Expenses:2024, x, 7.0\<newline>'')))
     = Inr []"
proof -
  have p: "(0::pyfloat) < Finite (9 / 4)" by (simp add: float_eval)
  have 1: "map snd (database (add_expense sample_fmt (fresh [] None) ''Food'' ''Bread'' (Finite (9 / 4)) False)) = []"
    and 2: "entries (expenses (add_expense sample_fmt (fresh [] None) ''Food'' ''Bread'' (Finite (9 / 4)) False)) =
     [(''Food'', ''Bread'', Finite (9 / 4))]"
    and 3: "text_file (add_expense sample_fmt (fresh [] None) ''Food'' ''Bread'' (Finite (9 / 4)) False) \<noteq> None"
    by (simp_all add: add_expense_fields [OF p] adjust_savings_if_needed_def save_data_def
        save_data_to_file_def Let_def entries_def fresh_def)
  have 4: "map_sum id (\<lambda>w. (map snd (database w), entries (expenses w)))
       (read_data_from_file sample_float (example_ledger\<lparr>text_file := Some ''Expenses:\<newline>''\<rparr>)) =
     Inr ([], [(''Food'', ''Bread'', Finite (9 / 4)), (''Food'', ''Milk'', Finite (7 / 2)),
               (''Rent'', ''Monthly Rent'', Finite 1000)])"
    by (simp add: read_data_from_file_def example_ledger_def entries_def)
  have 5: "section_lines False (readlines ''Expenses:\<newline>Expenses:2024, x, 7.0\<newline>'')
     = [''Expenses:2024, x, 7.0\<newline>'']"
    by (simp add: strip_def isspace_def)
  have 6: "parse_expense sample_float ''Expenses:2024, x, 7.0\<newline>'' = Some (''Expenses:2024'', ''x'', Finite 7)"
    by (simp add: parse_expense_def strip_def isspace_def split_on.simps sample_float_def)
  have 7: "expense_line sample_fmt ''Expenses:2024'' (''x'', Finite 7) = ''Expenses:2024, x, 7.0\<newline>''"
    by (simp add: expense_line_def sample_fmt_def)
  have 8: "map_sum id database
       (read_data_from_file sample_float (fresh [] (Some ''Expenses:\<newline>Expenses:2024, x, 7.0\<newline>'')))
     = Inr []"
    by (simp add: read_data_from_file_def fresh_def)
  from 1 2 3 4 5 6 7 8 show ?thesis by blast
qed

text \<open>
  C10. \<open>read_data_from_file\<close> empties the table but never the dictionary. After a load
  that completes, the rows of the table are the expense lines of the file, and the
  dictionary is the one before the load with those entries appended one by one: under
  every category the old items come first, in their order, followed by the file's items of
  that category, and the old categories keep their places.
\<close>

theorem load_appends:
  assumes "text_file w = Some content" and "read_data_from_file tf w = Inr w'"
  shows "\<exists>P. map Some P =
               map (parse_expense tf)
                 (filter (\<lambda>l. \<not> has_record_prefix l) (section_lines False (readlines content))) \<and>
             database w' = insert_rows [] P \<and>
             expenses w' = append_expenses (expenses w) P \<and>
             items_of (expenses w') category =
               items_of (expenses w) category @ map snd (filter (\<lambda>x. fst x = category) P) \<and>
             prefix (map fst (expenses w)) (map fst (expenses w'))"
proof -
  let ?L = "filter (\<lambda>l. \<not> has_record_prefix l) (section_lines False (readlines content))"
  let ?P = "map (the \<circ> parse_expense tf) ?L"
  have L: "expense_lines False (readlines content) = ?L" by (rule expense_lines_filter)
  have db: "database w' = insert_rows [] ?P"
    using read_data_from_file_result(2) [OF assms] by (simp only: L)
  have ok: "list_all (\<lambda>l. parse_expense tf l \<noteq> None) ?L"
    using read_data_from_file_result(1) [OF assms] by (simp only: L)
  have ex: "expenses w' = append_expenses (expenses w) ?P"
    using read_data_from_file_result(3) [OF assms] by (simp only: L)
  have 1: "map Some ?P = map (parse_expense tf) ?L"
    by (rule map_Some_the [OF ok])
  have 3: "items_of (expenses w') category =
      items_of (expenses w) category @ map snd (filter (\<lambda>x. fst x = category) ?P)"
    by (subst ex) (rule items_of_append_expenses)
  have 4: "prefix (map fst (expenses w)) (map fst (expenses w'))"
    by (subst ex) (rule keys_append_expenses)
  from 1 db ex 3 4 show ?thesis by blast
qed

theorem load_appends_witness:
  "text_file (example_ledger\<lparr>database := [(1, ''Old'', ''Row'', Some (Finite 7))],
                            text_file := Some ''Expenses:\<newline>Food, Eggs, 7.0\<newline>''\<rparr>)
     = Some ''Expenses:\<newline>Food, Eggs, 7.0\<newline>'' \<and>
   read_data_from_file sample_float
       (example_ledger\<lparr>database := [(1, ''Old'', ''Row'', Some (Finite 7))],
                       text_file := Some ''Expenses:\<newline>Food, Eggs, 7.0\<newline>''\<rparr>)
     = Inr (example_ledger\<lparr>database := [(1, ''Food'', ''Eggs'', Some (Finite 7))],
                expenses := [(''Food'', [(''Bread'', Finite (9 / 4)), (''Milk'', Finite (7 / 2)),
                                         (''Eggs'', Finite 7)]),
                             (''Rent'', [(''Monthly Rent'', Finite 1000)])],
                text_file := Some ''Expenses:\<newline>Food, Eggs, 7.0\<newline>''\<rparr>) \<and>
   items_of (expenses example_ledger) ''Food'' = [(''Bread'', Finite (9 / 4)), (''Milk'', Finite (7 / 2))] \<and>
   items_of [(''Food'', [(''Bread'', Finite (9 / 4)), (''Milk'', Finite (7 / 2)), (''Eggs'', Finite 7)]),
             (''Rent'', [(''Monthly Rent'', Finite 1000)])] ''Food''
     = [(''Bread'', Finite (9 / 4)), (''Milk'', Finite (7 / 2))] @ [(''Eggs'', Finite 7)]"
proof -
  let ?c = "''Expenses:\<newline>Food, Eggs, 7.0\<newline>''"
  let ?w = "example_ledger\<lparr>database := [(1, ''Old'', ''Row'', Some (Finite 7))], text_file := Some ?c\<rparr>"
  let ?E = "[(''Food'', [(''Bread'', Finite (9 / 4)), (''Milk'', Finite (7 / 2)), (''Eggs'', Finite 7)]),
             (''Rent'', [(''Monthly Rent'', Finite 1000)])]"
  let ?w' = "example_ledger\<lparr>database := [(1, ''Food'', ''Eggs'', Some (Finite 7))],
                expenses := ?E, text_file := Some ?c\<rparr>"
  have f: "text_file ?w = Some ?c" by simp
  have r: "read_data_from_file sample_float ?w = Inr ?w'"
    by (simp add: read_data_from_file_def example_ledger_def header_value_def strip_def isspace_def
        sample_float_def split_on.simps insert_row_def next_id_def sql_real_def)
  have i: "items_of (expenses example_ledger) ''Food'' = [(''Bread'', Finite (9 / 4)), (''Milk'', Finite (7 / 2))]"
    by (simp add: items_of_def example_ledger_def)
  have l: "map (parse_expense sample_float)
      (filter (\<lambda>l. \<not> has_record_prefix l) (section_lines False (readlines ?c)))
      = [Some (''Food'', ''Eggs'', Finite 7)]"
    by (simp add: strip_def isspace_def has_record_prefix_def parse_expense_def split_on.simps
        sample_float_def)
  from load_appends [OF f r, of "''Food''"] obtain P where
    P: "map Some P = map (parse_expense sample_float)
          (filter (\<lambda>l. \<not> has_record_prefix l) (section_lines False (readlines ?c)))"
    and it: "items_of (expenses ?w') ''Food'' =
          items_of (expenses ?w) ''Food'' @ map snd (filter (\<lambda>x. fst x = ''Food'') P)"
    by blast
  from P l have "P = [(''Food'', ''Eggs'', Finite 7)]" by auto
  with it have t: "items_of ?E ''Food'' =
      [(''Bread'', Finite (9 / 4)), (''Milk'', Finite (7 / 2))] @ [(''Eggs'', Finite 7)]"
    by (simp add: i)
  from f r i t show ?thesis by blast
qed

text \<open>
  C8 (as amended). If a file has, after its first \<open>Expenses:\<close> line, a non-blank line
  that carries none of the four record prefixes and is malformed, that is, whose stripped
  text does not split into exactly three fields at \<open>", "\<close> or whose third field \<open>float\<close>
  rejects, the load does not complete: \<open>read_data_from_file\<close> ends in ValueError.
\<close>

theorem malformed_expense_line_fails:
  assumes "text_file w = Some content"
      and "line \<in> set (section_lines False (readlines content))"
      and "\<not> has_record_prefix line"
      and "length (split_on '', '' (strip line)) \<noteq> 3 \<or>
           tf (split_on '', '' (strip line) ! 2) = None"
  shows "read_data_from_file tf w = Inl ValueError"
proof (cases "read_data_from_file tf w")
  case (Inl e)
  then have "read_lines tf False (w\<lparr>database := []\<rparr>) (readlines content) = Inl e"
    using assms(1) by (auto simp: read_data_from_file_def split: sum.splits)
  then have "e = ValueError" by (rule read_lines_error)
  with Inl show ?thesis by simp
next
  case (Inr w')
  have "list_all (\<lambda>l. parse_expense tf l \<noteq> None) (expense_lines False (readlines content))"
    by (rule read_data_from_file_result(1) [OF assms(1) Inr])
  moreover have "line \<in> set (expense_lines False (readlines content))"
    using assms(2,3) by (simp add: expense_lines_filter)
  ultimately have "parse_expense tf line \<noteq> None" by (simp add: list_all_iff)
  with assms(4) show ?thesis by (simp add: parse_expense_None_iff)
qed

theorem malformed_expense_line_fails_witness:
  "text_file (fresh [] (Some ''Expenses:\<newline>Food, Bread\<newline>'')) = Some ''Expenses:\<newline>Food, Bread\<newline>'' \<and>
   ''Food, Bread\<newline>'' \<in> set (section_lines False (readlines ''Expenses:\<newline>Food, Bread\<newline>'')) \<and>
   \<not> has_record_prefix ''Food, Bread\<newline>'' \<and>
   length (split_on '', '' (strip ''Food, Bread\<newline>'')) = 2 \<and>
   read_data_from_file sample_float (fresh [] (Some ''Expenses:\<newline>Food, Bread\<newline>'')) = Inl ValueError \<and>
   text_file (fresh [] (Some ''Expenses:\<newline>Food, Bread, lots\<newline>''))
     = Some ''Expenses:\<newline>Food, Bread, lots\<newline>'' \<and>
   ''Food, Bread, lots\<newline>'' \<in> set (section_lines False (readlines ''Expenses:\<newline>Food, Bread, lots\<newline>'')) \<and>
   \<not> has_record_prefix ''Food, Bread, lots\<newline>'' \<and>
   sample_float (split_on '', '' (strip ''Food, Bread, lots\<newline>'') ! 2) = None \<and>
   read_data_from_file sample_float (fresh [] (Some ''Expenses:\<newline>Food, Bread, lots\<newline>'')) = Inl ValueError"
proof -
  have f1: "text_file (fresh [] (Some ''Expenses:\<newline>Food, Bread\<newline>'')) = Some ''Expenses:\<newline>Food, Bread\<newline>''"
    and f2: "text_file (fresh [] (Some ''Expenses:\<newline>Food, Bread, lots\<newline>''))
      = Some ''Expenses:\<newline>Food, Bread, lots\<newline>''"
    by (simp_all add: fresh_def)
  have l1: "''Food, Bread\<newline>'' \<in> set (section_lines False (readlines ''Expenses:\<newline>Food, Bread\<newline>''))"
    and l2: "''Food, Bread, lots\<newline>'' \<in> set (section_lines False (readlines ''Expenses:\<newline>Food, Bread, lots\<newline>''))"
    by (simp_all add: strip_def isspace_def)
  have n1: "\<not> has_record_prefix ''Food, Bread\<newline>''"
    and n2: "\<not> has_record_prefix ''Food, Bread, lots\<newline>''"
    by (simp_all add: has_record_prefix_def)
  have m1: "length (split_on '', '' (strip ''Food, Bread\<newline>'')) = 2"
    by (simp add: strip_def isspace_def split_on.simps)
  have m2: "sample_float (split_on '', '' (strip ''Food, Bread, lots\<newline>'') ! 2) = None"
    by (simp add: strip_def isspace_def split_on.simps sample_float_def)
  have "read_data_from_file sample_float (fresh [] (Some ''Expenses:\<newline>Food, Bread\<newline>'')) = Inl ValueError"
    using malformed_expense_line_fails [OF f1 l1 n1, of sample_float] m1 by simp
  moreover have "read_data_from_file sample_float (fresh [] (Some ''Expenses:\<newline>Food, Bread, lots\<newline>'')) = Inl ValueError"
    using malformed_expense_line_fails [OF f2 l2 n2, of sample_float] m2 by simp
  ultimately show ?thesis using f1 f2 l1 l2 n1 n2 m1 m2 by blast
qed

text \<open>
  C8 as stated, for every non-blank line after the \<open>Expenses:\<close> line, fails. The line the
  program itself writes for the category \<open>Expenses: a, b\<close> has four fields and begins
  with \<open>Expenses:\<close>: the load skips it without an error. And the line \<open>Income: 7\<close>, one
  field, is read as the income. The load of the file with these two lines completes.
\<close>

theorem malformed_expense_line_fails_counterexample:
  "expense_line sample_fmt ''Expenses: a, b'' (''c'', Finite 7) = ''Expenses: a, b, c, 7.0\<newline>'' \<and>
   section_lines False (readlines ''Expenses:\<newline>Expenses: a, b, c, 7.0\<newline>Income: 7\<newline>'')
     = [''Expenses: a, b, c, 7.0\<newline>'', ''Income: 7\<newline>''] \<and>
   length (split_on '', '' (strip ''Expenses: a, b, c, 7.0\<newline>'')) = 4 \<and>
   length (split_on '', '' (strip ''Income: 7\<newline>'')) = 1 \<and>
   read_data_from_file sample_float
       (fresh [] (Some ''Expenses:\<newline>Expenses: a, b, c, 7.0\<newline>Income: 7\<newline>''))
     = Inr (fresh [] (Some ''Expenses:\<newline>Expenses: a, b, c, 7.0\<newline>Income: 7\<newline>'')
              \<lparr>income := Finite 7\<rparr>)"
proof -
  have 1: "expense_line sample_fmt ''Expenses: a, b'' (''c'', Finite 7) = ''Expenses: a, b, c, 7.0\<newline>''"
    by (simp add: expense_line_def sample_fmt_def)
  have 2: "section_lines False (readlines ''Expenses:\<newline>Expenses: a, b, c, 7.0\<newline>Income: 7\<newline>'')
     = [''Expenses: a, b, c, 7.0\<newline>'', ''Income: 7\<newline>'']"
    by (simp add: strip_def isspace_def)
  have 3: "length (split_on '', '' (strip ''Expenses: a, b, c, 7.0\<newline>'')) = 4"
    and 4: "length (split_on '', '' (strip ''Income: 7\<newline>'')) = 1"
    by (simp_all add: strip_def isspace_def split_on.simps)
  have 5: "read_data_from_file sample_float
       (fresh [] (Some ''Expenses:\<newline>Expenses: a, b, c, 7.0\<newline>Income: 7\<newline>''))
     = Inr (fresh [] (Some ''Expenses:\<newline>Expenses: a, b, c, 7.0\<newline>Income: 7\<newline>'')
              \<lparr>income := Finite 7\<rparr>)"
    by (simp add: read_data_from_file_def fresh_def header_value_def strip_def isspace_def
        split_on.simps sample_float_def)
  from 1 2 3 4 5 show ?thesis by blast
qed

text \<open>
  C5 (as amended). Savings that are not below 0 are not below 0 after \<open>add_income\<close>,
  \<open>set_savings_goal\<close>, \<open>add_expense\<close> and \<open>adjust_savings_if_needed\<close>; when expenses
  exceed income, \<open>adjust_savings_if_needed\<close> leaves savings that are not below 0 whatever
  they were before (they can be nan, as infinite savings minus an infinite deficit are).
  \<open>read_data_from_file\<close> takes the savings from the file unclamped: they are not below 0
  afterwards when they were not before and no \<open>Savings:\<close> line of the file holds a number
  below 0.
\<close>

theorem savings_stay_nonnegative:
  "(\<not> savings w < 0 \<longrightarrow>
      \<not> savings (add_income w amount) < 0 \<and> \<not> savings (set_savings_goal w goal) < 0 \<and>
      \<not> savings (add_expense fmt w category description amount b) < 0 \<and>
      \<not> savings (adjust_savings_if_needed w) < 0) \<and>
   (income w - total_expenses w < 0 \<longrightarrow> \<not> savings (adjust_savings_if_needed w) < 0) \<and>
   (\<not> savings w < 0 \<and> read_data_from_file tf w = Inr w' \<and>
    (\<forall>content line v. text_file w = Some content \<and> line \<in> set (readlines content) \<and>
        prefix ''Savings:'' line \<and> header_value tf line = Inr v \<longrightarrow> \<not> v < 0) \<longrightarrow>
      \<not> savings w' < 0)"
proof (intro conjI impI)
  assume s: "\<not> savings w < 0"
  show "\<not> savings (add_income w amount) < 0"
    using s by (simp add: add_income_def save_data_def)
  show "\<not> savings (set_savings_goal w goal) < 0"
    using s by (simp add: set_savings_goal_def save_data_def)
  show "\<not> savings (adjust_savings_if_needed w) < 0"
    using s by (simp add: adjust_savings_if_needed_def save_data_def Let_def)
  show "\<not> savings (add_expense fmt w category description amount b) < 0"
    using s by (simp add: add_expense_def adjust_savings_if_needed_def save_data_def Let_def)
next
  assume "income w - total_expenses w < 0"
  then show "\<not> savings (adjust_savings_if_needed w) < 0"
    by (simp add: adjust_deficit_case)
next
  assume a: "\<not> savings w < 0 \<and> read_data_from_file tf w = Inr w' \<and>
    (\<forall>content line v. text_file w = Some content \<and> line \<in> set (readlines content) \<and>
        prefix ''Savings:'' line \<and> header_value tf line = Inr v \<longrightarrow> \<not> v < 0)"
  show "\<not> savings w' < 0"
  proof (cases "text_file w")
    case None
    with a show ?thesis by (auto simp: read_data_from_file_def)
  next
    case (Some content)
    from a Some obtain w1 where
      r: "read_lines tf False (w\<lparr>database := []\<rparr>) (readlines content) = Inr w1"
      and w': "w' = w1\<lparr>original_savings := savings w1\<rparr>"
      by (auto simp: read_data_from_file_def split: sum.splits)
    have h: "\<forall>l \<in> set (readlines content). prefix ''Savings:'' l \<longrightarrow>
        (\<forall>v. header_value tf l = Inr v \<longrightarrow> \<not> v < 0)"
      using a Some by blast
    have "\<not> savings (w\<lparr>database := []\<rparr>) < 0" using a by simp
    from read_lines_savings [OF r this h] w' show ?thesis by simp
  qed
qed

theorem savings_stay_nonnegative_witness:
  "\<not> savings (fresh [] (Some ''Savings: 7\<newline>'')) < 0 \<and>
   read_data_from_file sample_float (fresh [] (Some ''Savings: 7\<newline>'')) =
     Inr (fresh [] (Some ''Savings: 7\<newline>'')\<lparr>savings := Finite 7, original_savings := Finite 7\<rparr>) \<and>
   \<not> savings (fresh [] (Some ''Savings: 7\<newline>'')\<lparr>savings := Finite 7, original_savings := Finite 7\<rparr>) < 0 \<and>
   income (example_ledger\<lparr>savings := Finite 7\<rparr>) - total_expenses (example_ledger\<lparr>savings := Finite 7\<rparr>) < 0 \<and>
   savings (adjust_savings_if_needed (example_ledger\<lparr>savings := Finite 7\<rparr>)) = 0 \<and>
   income (example_ledger\<lparr>savings := PInf, income := NInf\<rparr>)
     - total_expenses (example_ledger\<lparr>savings := PInf, income := NInf\<rparr>) < 0 \<and>
   savings (adjust_savings_if_needed (example_ledger\<lparr>savings := PInf, income := NInf\<rparr>)) = NaN \<and>
   \<not> NaN < (0::pyfloat) \<and>
   \<not> savings (add_expense sample_fmt (fresh [] (Some ''Savings: 7\<newline>'')) ''Food'' ''Bread''
                  (Finite (9 / 4)) True) < 0"
proof -
  let ?w = "fresh [] (Some ''Savings: 7\<newline>'')"
  let ?w' = "?w\<lparr>savings := Finite 7, original_savings := Finite 7\<rparr>"
  let ?v = "example_ledger\<lparr>savings := Finite 7\<rparr>"
  let ?u = "example_ledger\<lparr>savings := PInf, income := NInf\<rparr>"
  have s: "\<not> savings ?w < 0" by (simp add: fresh_def)
  have r: "read_data_from_file sample_float ?w = Inr ?w'"
    by (simp add: read_data_from_file_def fresh_def header_value_def strip_def isspace_def
        sample_float_def split_on.simps)
  have h: "\<forall>content line v. text_file ?w = Some content \<and> line \<in> set (readlines content) \<and>
        prefix ''Savings:'' line \<and> header_value sample_float line = Inr v \<longrightarrow> \<not> v < 0"
    by (simp add: fresh_def header_value_def strip_def isspace_def sample_float_def split_on.simps
        float_eval)
  have lt: "income ?v - total_expenses ?v < 0"
    by (simp add: example_ledger_def total_expenses_def float_eval)
  have z: "savings (adjust_savings_if_needed ?v) = 0"
    by (simp add: adjust_savings_if_needed_def save_data_def Let_def example_ledger_def
        total_expenses_def float_eval)
  have lu: "income ?u - total_expenses ?u < 0"
    by (simp add: example_ledger_def total_expenses_def float_eval)
  have zu: "savings (adjust_savings_if_needed ?u) = NaN"
    by (simp add: adjust_savings_if_needed_def save_data_def Let_def example_ledger_def
        total_expenses_def float_eval)
  have nn: "\<not> NaN < (0::pyfloat)" by simp
  show ?thesis
    using savings_stay_nonnegative [of ?w 0 0 sample_fmt "''Food''" "''Bread''" True sample_float ?w']
      savings_stay_nonnegative [of ?w "Finite (9 / 4)" 0 sample_fmt "''Food''" "''Bread''" True sample_float ?w']
      savings_stay_nonnegative [of ?v 0 0 sample_fmt "''Food''" "''Bread''" True sample_float ?w']
      savings_stay_nonnegative [of ?u 0 0 sample_fmt "''Food''" "''Bread''" True sample_float ?w']
      s r h lt z lu zu nn
    by simp
qed

text \<open>
  C5 as stated fails: a file with the line \<open>Savings: -5\<close> loads with savings \<open>-5\<close>, and
  \<open>add_income\<close> on a ledger with savings \<open>-5\<close> leaves them at \<open>-5\<close>.
\<close>

theorem negative_savings_counterexample:
  "map_sum id savings (read_data_from_file sample_float (fresh [] (Some ''Savings: -5\<newline>'')))
     = Inr (Finite (- 5)) \<and>
   Finite (- 5) < (0::pyfloat) \<and>
   savings (add_income (fresh [] None\<lparr>savings := Finite (- 5)\<rparr>) (Finite 500)) = Finite (- 5)"
  by (simp add: read_data_from_file_def fresh_def header_value_def strip_def isspace_def
      sample_float_def split_on.simps add_income_def save_data_def float_eval)

end
